theory Spec2Isabelle
  imports Complex_Main "HOL-Library.Multiset"
begin

section \<open>JSON values and Python dictionaries\<close>

text \<open>
  The persisted files hold JSON. A value read by \<open>json.load\<close> is one of the
  constructors below (numbers are restricted to integers; no claim depends on a
  fractional number inside a stored payload). A Python \<open>dict\<close> is an association
  list in insertion order whose keys are pairwise distinct.
\<close>

datatype json =
    JNull
  | JBool bool
  | JInt int
  | JStr string
  | JArr "json list"
  | JObj "(string \<times> json) list"

type_synonym dict = "(string \<times> json) list"

text \<open>Python's \<open>bool(v)\<close>.\<close>

fun truthy :: "json \<Rightarrow> bool" where
  "truthy JNull = False"
| "truthy (JBool b) = b"
| "truthy (JInt i) = (i \<noteq> 0)"
| "truthy (JStr s) = (s \<noteq> [])"
| "truthy (JArr xs) = (xs \<noteq> [])"
| "truthy (JObj kvs) = (kvs \<noteq> [])"

text \<open>\<open>k in d\<close>, \<open>d.get(k)\<close>, \<open>d.get(k, default)\<close> and \<open>d[k] = v\<close>.\<close>

definition dict_has :: "('k \<times> 'v) list \<Rightarrow> 'k \<Rightarrow> bool" where
  "dict_has d k = (map_of d k \<noteq> None)"

definition dict_get :: "dict \<Rightarrow> string \<Rightarrow> json" where
  "dict_get d k = (case map_of d k of None \<Rightarrow> JNull | Some v \<Rightarrow> v)"

definition dict_get_default :: "dict \<Rightarrow> string \<Rightarrow> json \<Rightarrow> json" where
  "dict_get_default d k dflt = (case map_of d k of None \<Rightarrow> dflt | Some v \<Rightarrow> v)"

fun dict_set :: "('k \<times> 'v) list \<Rightarrow> 'k \<Rightarrow> 'v \<Rightarrow> ('k \<times> 'v) list" where
  "dict_set [] k v = [(k, v)]"
| "dict_set ((k', v') # d) k v =
     (if k' = k then (k, v) # d else (k', v') # dict_set d k v)"

text \<open>Python's \<open>str\<close> on an integer: the decimal numeral, with a minus sign.\<close>

fun str_nat :: "nat \<Rightarrow> string" where
  "str_nat n =
     (if n < 10 then [''0123456789'' ! n]
      else str_nat (n div 10) @ [''0123456789'' ! (n mod 10)])"

declare str_nat.simps [simp del]

definition str_int :: "int \<Rightarrow> string" where
  "str_int i = (if i < 0 then CHR ''-'' # str_nat (nat (- i)) else str_nat (nat i))"

text \<open>
  Python's \<open>repr\<close> and \<open>str\<close> of a decoded JSON value. A string is quoted with
  single quotes, or with double quotes if it holds a single quote and no double quote;
  the backslash, the quote in use, newline, carriage return and tab are escaped, other
  control characters are written \<open>\xNN\<close>; bytes of non-ASCII characters are taken to
  be printable and kept. \<open>str\<close> differs from \<open>repr\<close> on strings only.
\<close>

definition hex2 :: "nat \<Rightarrow> string" where
  "hex2 n = [''0123456789abcdef'' ! (n div 16 mod 16), ''0123456789abcdef'' ! (n mod 16)]"

definition escape_char :: "char \<Rightarrow> char \<Rightarrow> string" where
  "escape_char quote c =
     (if c = CHR 0x5C then [CHR 0x5C, CHR 0x5C]
      else if c = quote then [CHR 0x5C, quote]
      else if c = CHR 0x0A then [CHR 0x5C, CHR ''n'']
      else if c = CHR 0x0D then [CHR 0x5C, CHR ''r'']
      else if c = CHR 0x09 then [CHR 0x5C, CHR ''t'']
      else if (of_char c :: nat) < 32 \<or> (of_char c :: nat) = 127
      then [CHR 0x5C, CHR ''x''] @ hex2 (of_char c)
      else [c])"

definition repr_str :: "string \<Rightarrow> string" where
  "repr_str s =
     (let quote = (if CHR 0x27 \<in> set s \<and> CHR 0x22 \<notin> set s then CHR 0x22 else CHR 0x27)
      in [quote] @ concat (map (escape_char quote) s) @ [quote])"

fun join :: "string \<Rightarrow> string list \<Rightarrow> string" where
  "join sep [] = []"
| "join sep [x] = x"
| "join sep (x # y # ys) = x @ sep @ join sep (y # ys)"

fun py_repr :: "json \<Rightarrow> string" where
  "py_repr JNull = ''None''"
| "py_repr (JBool b) = (if b then ''True'' else ''False'')"
| "py_repr (JInt i) = str_int i"
| "py_repr (JStr s) = repr_str s"
| "py_repr (JArr xs) = ''['' @ join '', '' (map py_repr xs) @ '']''"
| "py_repr (JObj kvs) =
     ''{'' @ join '', '' (map (\<lambda>kv. repr_str (fst kv) @ '': '' @ py_repr (snd kv)) kvs) @ ''}''"

definition py_str :: "json \<Rightarrow> string" where
  "py_str v = (case v of JStr s \<Rightarrow> s | _ \<Rightarrow> py_repr v)"

text \<open>The name of the Python type of a decoded JSON value.\<close>

fun type_name :: "json \<Rightarrow> string" where
  "type_name JNull = ''NoneType''"
| "type_name (JBool b) = ''bool''"
| "type_name (JInt i) = ''int''"
| "type_name (JStr s) = ''str''"
| "type_name (JArr xs) = ''list''"
| "type_name (JObj kvs) = ''dict''"

datatype py_error =
    ZeroDivisionError
  | KeyError
  | TypeError
  | AttributeError
  | ValueError
  | UnicodeDecodeError


section \<open>The persisted state (data\_manager.py)\<close>

text \<open>
  A query of the dataset is a dictionary with the keys \<open>id\<close>, \<open>query\<close>,
  \<open>category\<close>, \<open>quality\<close> and \<open>intent_clarity\<close>; a missing key is \<open>None\<close>.
  \<open>get_queries_needing_scores\<close> adds the keys \<open>chatgpt_response\<close> and
  \<open>google_response\<close>.
\<close>

record query =
  qid :: "int option"
  qtext :: "string option"
  category :: "string option"
  quality :: "string option"
  intent_clarity :: "string option"
  chatgpt_response :: "json option"
  google_response :: "json option"

text \<open>
  A file is missing, holds text that \<open>json.load\<close> rejects with
  \<open>JSONDecodeError\<close>, holds bytes that are not UTF-8, so that reading it raises
  \<open>UnicodeDecodeError\<close>, or holds a decoded value. The results and the progress
  file (and their backup copies) hold a JSON object keyed by \<open>str(query_id)\<close>;
  the dataset file holds the list of queries.
\<close>

datatype 'a file_state = Missing | Corrupt | Unreadable | Content 'a

type_synonym store = "(string \<times> json) list"

record disk =
  query_file :: "query list file_state"
  files :: "string \<Rightarrow> store file_state"

text \<open>
  The two renderings of \<open>datetime.now()\<close> that the module uses: \<open>isoformat()\<close>
  for the stored timestamps and \<open>strftime('%Y%m%d_%H%M%S')\<close> for backup names.
  One reading of the clock is passed to each operation.
\<close>

record clock =
  isoformat :: string
  strftime :: string

definition QUERY_FILE :: string where "QUERY_FILE = ''query_dataset.json''"
definition RESULTS_FILE :: string where "RESULTS_FILE = ''results.json''"
definition PROGRESS_FILE :: string where "PROGRESS_FILE = ''progress.json''"

definition exists_file :: "disk \<Rightarrow> string \<Rightarrow> bool" where
  "exists_file d path = (files d path \<noteq> Missing)"

definition write_file :: "string \<Rightarrow> store \<Rightarrow> disk \<Rightarrow> disk" where
  "write_file path s d = d\<lparr>files := (files d)(path := Content s)\<rparr>"

definition backup_path :: "string \<Rightarrow> clock \<Rightarrow> string" where
  "backup_path filepath t = filepath @ ''.backup_'' @ strftime t"

definition backup_file :: "string \<Rightarrow> clock \<Rightarrow> disk \<Rightarrow> disk" where
  "backup_file filepath t d =
     (if \<not> exists_file d filepath then d
      else d\<lparr>files := (files d)(backup_path filepath t := files d filepath)\<rparr>)"

text \<open>
  \<open>load_queries\<close>: sequential ids are added where the key \<open>id\<close> is absent.
  The three loaders catch \<open>JSONDecodeError\<close> (and \<open>load_queries\<close> a missing
  file); \<open>UnicodeDecodeError\<close> leaves them as an exception.
\<close>

fun add_ids :: "nat \<Rightarrow> query list \<Rightarrow> query list" where
  "add_ids idx [] = []"
| "add_ids idx (q # qs) =
     (if qid q = None then q\<lparr>qid := Some (int idx)\<rparr> else q) # add_ids (Suc idx) qs"

definition load_queries :: "disk \<Rightarrow> py_error + query list" where
  "load_queries d =
     (case query_file d of
        Content qs \<Rightarrow> Inr (add_ids 0 qs)
      | Missing \<Rightarrow> Inr []
      | Corrupt \<Rightarrow> Inr []
      | Unreadable \<Rightarrow> Inl UnicodeDecodeError)"

definition load_results :: "clock \<Rightarrow> disk \<Rightarrow> py_error + disk \<times> store" where
  "load_results t d =
     (case files d RESULTS_FILE of
        Missing \<Rightarrow> Inr (d, [])
      | Content s \<Rightarrow> Inr (d, s)
      | Corrupt \<Rightarrow> Inr (backup_file RESULTS_FILE t d, [])
      | Unreadable \<Rightarrow> Inl UnicodeDecodeError)"

definition load_progress :: "clock \<Rightarrow> disk \<Rightarrow> py_error + disk \<times> store" where
  "load_progress t d =
     (case files d PROGRESS_FILE of
        Missing \<Rightarrow> Inr (d, [])
      | Content s \<Rightarrow> Inr (d, s)
      | Corrupt \<Rightarrow> Inr (backup_file PROGRESS_FILE t d, [])
      | Unreadable \<Rightarrow> Inl UnicodeDecodeError)"

definition new_progress_entry :: json where
  "new_progress_entry =
     JObj [(''chatgpt_done'', JBool False), (''google_done'', JBool False),
           (''scored'', JBool False), (''last_updated'', JNull)]"

text \<open>
  \<open>update_progress\<close>. The query id is whatever the caller passes (the endpoints
  pass the value of the request body on); it is used through \<open>str(query_id)\<close>. The
  item assignment \<open>progress[key][status_field] = True\<close> raises \<open>TypeError\<close> when
  the stored entry is not an object; the \<open>except\<close> clause turns that, and an
  exception of \<open>load_progress\<close>, into the result \<open>False\<close>, before anything is
  written.
\<close>

definition update_progress :: "json \<Rightarrow> string \<Rightarrow> clock \<Rightarrow> disk \<Rightarrow> disk \<times> bool" where
  "update_progress query_id status_field t d =
     (case load_progress t d of
        Inl e \<Rightarrow> (d, False)
      | Inr (d1, progress) \<Rightarrow>
         (let key = py_str query_id;
              progress1 = (if \<not> dict_has progress key
                           then dict_set progress key new_progress_entry else progress)
          in case map_of progress1 key of
               Some (JObj e) \<Rightarrow>
                 (let e1 = dict_set e status_field (JBool True);
                      e2 = dict_set e1 ''last_updated'' (JStr (isoformat t));
                      progress2 = dict_set progress1 key (JObj e2)
                  in (write_file PROGRESS_FILE progress2 d1, True))
             | _ \<Rightarrow> (d1, False)))"

definition new_result_entry :: "json \<Rightarrow> json" where
  "new_result_entry query_id =
     JObj [(''query_id'', query_id), (''chatgpt'', JNull),
           (''google'', JNull), (''scores'', JNull)]"

text \<open>
  \<open>save_result\<close>. Every exception inside is caught and gives the result \<open>False\<close>:
  one of \<open>load_results\<close>, before anything has happened, and the \<open>TypeError\<close> of
  the assignment to an entry that is not an object, before anything is written.
\<close>

definition save_result :: "json \<Rightarrow> string \<Rightarrow> dict \<Rightarrow> clock \<Rightarrow> disk \<Rightarrow> disk \<times> bool" where
  "save_result query_id platform response_data t d =
     (case load_results t d of
        Inl e \<Rightarrow> (d, False)
      | Inr (d1, results) \<Rightarrow>
         (let key = py_str query_id;
              results1 = (if \<not> dict_has results key
                          then dict_set results key (new_result_entry query_id) else results);
              response_data1 = (if \<not> dict_has response_data ''timestamp''
                                then dict_set response_data ''timestamp'' (JStr (isoformat t))
                                else response_data)
          in case map_of results1 key of
               Some (JObj e) \<Rightarrow>
                 (let results2 = dict_set results1 key
                                   (JObj (dict_set e platform (JObj response_data1)));
                      d2 = (if exists_file d1 RESULTS_FILE then backup_file RESULTS_FILE t d1 else d1);
                      d3 = write_file RESULTS_FILE results2 d2;
                      (d4, ok) = update_progress query_id (platform @ ''_done'') t d3
                  in (d4, True))
             | _ \<Rightarrow> (d1, False)))"

text \<open>
  \<open>save_scores\<close>. The scores are whatever the caller passes;
  \<open>scores['timestamp'] = ...\<close> raises \<open>TypeError\<close> unless they are an object,
  after the check that the query is in the results and before anything is written.
\<close>

definition save_scores :: "json \<Rightarrow> json \<Rightarrow> clock \<Rightarrow> disk \<Rightarrow> disk \<times> bool" where
  "save_scores query_id scores t d =
     (case load_results t d of
        Inl e \<Rightarrow> (d, False)
      | Inr (d1, results) \<Rightarrow>
         (let key = py_str query_id
          in if \<not> dict_has results key then (d1, False)
             else
               (case scores of
                  JObj scores0 \<Rightarrow>
                    (let scores1 = dict_set scores0 ''timestamp'' (JStr (isoformat t))
                     in case map_of results key of
                          Some (JObj e) \<Rightarrow>
                            (let results2 = dict_set results key
                                              (JObj (dict_set e ''scores'' (JObj scores1)));
                                 d2 = (if exists_file d1 RESULTS_FILE
                                       then backup_file RESULTS_FILE t d1 else d1);
                                 d3 = write_file RESULTS_FILE results2 d2;
                                 (d4, ok) = update_progress query_id ''scored'' t d3
                             in (d4, True))
                        | _ \<Rightarrow> (d1, False))
                | _ \<Rightarrow> (d1, False))))"

text \<open>
  \<open>x.get(k, default)\<close> on a value read from a file: \<open>AttributeError\<close> unless the
  value is an object.
\<close>

definition obj_get :: "json \<Rightarrow> string \<Rightarrow> json \<Rightarrow> py_error + json" where
  "obj_get x k dflt =
     (case x of JObj e \<Rightarrow> Inr (dict_get_default e k dflt) | _ \<Rightarrow> Inl AttributeError)"

text \<open>
  The body of the loop of \<open>get_queries_needing_scores\<close> for one query: \<open>Inr None\<close>
  when the query is not appended, \<open>Inr (Some q')\<close> when it is, with the responses
  attached if the results store has the key. \<open>and\<close> evaluates left to right and
  stops at the first falsy operand.
\<close>

definition needs_scores :: "store \<Rightarrow> store \<Rightarrow> query \<Rightarrow> py_error + query option" where
  "needs_scores progress results q =
     (case qid q of
        None \<Rightarrow> Inl KeyError
      | Some i \<Rightarrow>
         (let query_id = str_int i;
              query_progress = (case map_of progress query_id of None \<Rightarrow> JObj [] | Some p \<Rightarrow> p)
          in case obj_get query_progress ''chatgpt_done'' (JBool False) of
               Inl e \<Rightarrow> Inl e
             | Inr c \<Rightarrow>
                if \<not> truthy c then Inr None
                else (case obj_get query_progress ''google_done'' (JBool False) of
                        Inl e \<Rightarrow> Inl e
                      | Inr g \<Rightarrow>
                         if \<not> truthy g then Inr None
                         else (case obj_get query_progress ''scored'' (JBool False) of
                                 Inl e \<Rightarrow> Inl e
                               | Inr s \<Rightarrow>
                                  if truthy s then Inr None
                                  else (case map_of results query_id of
                                          None \<Rightarrow> Inr (Some q)
                                        | Some r \<Rightarrow>
                                           (case obj_get r ''chatgpt'' JNull of
                                              Inl e \<Rightarrow> Inl e
                                            | Inr cr \<Rightarrow>
                                               (case obj_get r ''google'' JNull of
                                                  Inl e \<Rightarrow> Inl e
                                                | Inr gr \<Rightarrow>
                                                   Inr (Some (q\<lparr>chatgpt_response := Some cr,
                                                                google_response := Some gr\<rparr>)))))))))"

fun needing_loop :: "store \<Rightarrow> store \<Rightarrow> query list \<Rightarrow> py_error + query list" where
  "needing_loop progress results [] = Inr []"
| "needing_loop progress results (q # qs) =
     (case needs_scores progress results q of
        Inl e \<Rightarrow> Inl e
      | Inr r \<Rightarrow>
         (case needing_loop progress results qs of
            Inl e \<Rightarrow> Inl e
          | Inr needed \<Rightarrow> Inr ((case r of None \<Rightarrow> [] | Some q' \<Rightarrow> [q']) @ needed)))"

definition get_queries_needing_scores :: "clock \<Rightarrow> disk \<Rightarrow> disk \<times> (py_error + query list)" where
  "get_queries_needing_scores t d =
     (case load_queries d of
        Inl e \<Rightarrow> (d, Inl e)
      | Inr queries \<Rightarrow>
         (case load_progress t d of
            Inl e \<Rightarrow> (d, Inl e)
          | Inr (d1, progress) \<Rightarrow>
             (case load_results t d1 of
                Inl e \<Rightarrow> (d1, Inl e)
              | Inr (d2, results) \<Rightarrow> (d2, needing_loop progress results queries))))"

text \<open>\<open>reset_progress\<close>: the progress file is backed up and removed.\<close>

definition remove_file :: "string \<Rightarrow> disk \<Rightarrow> disk" where
  "remove_file path d = d\<lparr>files := (files d)(path := Missing)\<rparr>"

definition reset_progress :: "clock \<Rightarrow> disk \<Rightarrow> disk \<times> bool" where
  "reset_progress t d =
     (if exists_file d PROGRESS_FILE
      then (remove_file PROGRESS_FILE (backup_file PROGRESS_FILE t d), True)
      else (d, True))"

text \<open>
  run\_llm\_judge.py, lines 120 to 150 and 164 to 168: the automated scores of one
  judged query are stored under the key \<open>llm_scores\<close> of its results entry (the
  query is skipped when the key is not in the loaded results), and the results file
  is rewritten. Neither a backup nor \<open>update_progress\<close> is part of that path.
  The script judges the queries that have both responses and neither \<open>scores\<close>
  nor \<open>llm_scores\<close>; the selection and the call of the judge are not modelled,
  and \<open>judge_save\<close> is applied below to a query that the script would select.
\<close>

definition judge_store_scores :: "int \<Rightarrow> dict \<Rightarrow> store \<Rightarrow> py_error + store" where
  "judge_store_scores query_id llm_scores results_data =
     (let query_id_str = str_int query_id
      in if \<not> dict_has results_data query_id_str then Inr results_data
         else (case map_of results_data query_id_str of
                 Some (JObj e) \<Rightarrow>
                   Inr (dict_set results_data query_id_str (JObj (dict_set e ''llm_scores'' (JObj llm_scores))))
               | _ \<Rightarrow> Inl TypeError))"

definition judge_save :: "int \<Rightarrow> dict \<Rightarrow> disk \<Rightarrow> disk" where
  "judge_save query_id llm_scores d =
     (case files d RESULTS_FILE of
        Content results_data \<Rightarrow>
          (case judge_store_scores query_id llm_scores results_data of
             Inr results_data1 \<Rightarrow> write_file RESULTS_FILE results_data1 d
           | Inl e \<Rightarrow> write_file RESULTS_FILE results_data d)
      | _ \<Rightarrow> d)"

subsection \<open>Reading the stores, and the progress invariant\<close>

text \<open>The object a file holds; \<open>{}\<close> for a file that is missing or cannot be decoded.\<close>

definition stored :: "disk \<Rightarrow> string \<Rightarrow> store" where
  "stored d path = (case files d path of Content s \<Rightarrow> s | _ \<Rightarrow> [])"

text \<open>\<open>entry.get(k, False)\<close> as a truth value; an entry that is no object has no flags.\<close>

definition flag :: "json \<Rightarrow> string \<Rightarrow> bool" where
  "flag entry k =
     (case entry of JObj e \<Rightarrow> truthy (dict_get_default e k (JBool False)) | _ \<Rightarrow> False)"

text \<open>The progress invariant: an entry that is scored has both responses done.\<close>

definition entry_ok :: "json \<Rightarrow> bool" where
  "entry_ok e = (if flag e ''scored'' then flag e ''chatgpt_done'' \<and> flag e ''google_done'' else True)"

definition progress_invariant :: "disk \<Rightarrow> bool" where
  "progress_invariant d = list_all (\<lambda>(k, e). entry_ok e) (stored d PROGRESS_FILE)"

text \<open>Sequences of the two saving operations.\<close>

datatype op = SaveResult json string dict clock | SaveScores json json clock

fun apply_op :: "op \<Rightarrow> disk \<Rightarrow> disk" where
  "apply_op (SaveResult query_id platform response_data t) d =
     fst (save_result query_id platform response_data t d)"
| "apply_op (SaveScores query_id scores t) d = fst (save_scores query_id scores t d)"

fun run_ops :: "op list \<Rightarrow> disk \<Rightarrow> disk" where
  "run_ops [] d = d"
| "run_ops (x # xs) d = run_ops xs (apply_op x d)"

text \<open>\<open>results.get(key, {}).get(field)\<close>.\<close>

definition field_of :: "store \<Rightarrow> string \<Rightarrow> string \<Rightarrow> json" where
  "field_of s key field =
     (case map_of s key of Some (JObj e) \<Rightarrow> dict_get e field | _ \<Rightarrow> JNull)"

subsection \<open>Concrete states\<close>

definition empty_disk :: disk where
  "empty_disk = \<lparr>query_file = Missing, files = (\<lambda>path. Missing)\<rparr>"

definition t1 :: clock where
  "t1 = \<lparr>isoformat = ''2025-01-01T10:00:00'', strftime = ''20250101_100000''\<rparr>"

definition t2 :: clock where
  "t2 = \<lparr>isoformat = ''2025-01-01T10:05:00'', strftime = ''20250101_100500''\<rparr>"

definition q0 :: query where
  "q0 = \<lparr>qid = Some 0, qtext = Some ''capital of France'', category = Some ''Factual'',
         quality = Some ''Well-formed'', intent_clarity = Some ''High'',
         chatgpt_response = None, google_response = None\<rparr>"

definition answer_a :: dict where
  "answer_a = [(''response'', JStr ''Paris'')]"

definition answer_b :: dict where
  "answer_b = [(''response'', JStr ''Paris, France'')]"

definition some_scores :: dict where
  "some_scores = [(''chatgpt_relevance'', JInt 4), (''google_relevance'', JInt 5)]"

definition judged_disk :: disk where
  "judged_disk =
     judge_save 0 [(''chatgpt_relevance'', JInt 4), (''google_relevance'', JInt 5)]
       (run_ops [SaveResult (JInt 0) ''chatgpt'' answer_a t1,
                 SaveResult (JInt 0) ''google'' answer_b t1]
          (empty_disk\<lparr>query_file := Content [q0]\<rparr>))"

text \<open>The response payload as \<open>save_result\<close> stores it: a timestamp is added if absent.\<close>

definition stamped :: "dict \<Rightarrow> clock \<Rightarrow> dict" where
  "stamped response_data t =
     (if \<not> dict_has response_data ''timestamp''
      then dict_set response_data ''timestamp'' (JStr (isoformat t)) else response_data)"

definition two_results_disk :: disk where
  "two_results_disk =
     run_ops [SaveResult (JInt 0) ''chatgpt'' answer_a t1,
              SaveResult (JInt 1) ''chatgpt'' answer_b t1,
              SaveScores (JInt 1) (JObj some_scores) t1] empty_disk"

definition one_response_disk :: disk where
  "one_response_disk = run_ops [SaveResult (JInt 0) ''chatgpt'' answer_a t1] empty_disk"

section \<open>The save-scores endpoint (app.py)\<close>

text \<open>
  A request to \<open>/api/save-scores\<close>: \<open>request.get_json()\<close> raises (the request
  carries no JSON; the text of the exception is given) or returns the decoded body,
  which may be any JSON value. The answer is the HTTP status with the JSON body built
  by \<open>jsonify\<close>. The whole handler is inside \<open>try\<close>; its \<open>except Exception\<close>
  clause answers with status 500 and \<open>str(e)\<close>.
\<close>

datatype request = NoJson string | JsonBody json

definition required_fields :: "string list" where
  "required_fields =
     [''chatgpt_relevance'', ''chatgpt_completeness'', ''chatgpt_source_quality'',
      ''google_relevance'', ''google_completeness'', ''google_source_quality'',
      ''chatgpt_intent_understood'', ''google_intent_understood'']"

text \<open>\<open>xs\<close> occurs in \<open>ys\<close> as a substring.\<close>

definition is_substring :: "string \<Rightarrow> string \<Rightarrow> bool" where
  "is_substring xs ys = list_ex (\<lambda>i. take (length xs) (drop i ys) = xs) [0 ..< Suc (length ys)]"

text \<open>
  \<open>field in scores\<close> for a string \<open>field\<close>: a key of an object, an element of a
  list, a substring of a string; for the other values \<open>TypeError\<close>, with the text
  that CPython gives it (\<open>Inl\<close>).
\<close>

definition py_in :: "string \<Rightarrow> json \<Rightarrow> string + bool" where
  "py_in field v =
     (case v of
        JObj kvs \<Rightarrow> Inr (dict_has kvs field)
      | JArr xs \<Rightarrow> Inr (List.member xs (JStr field))
      | JStr s \<Rightarrow> Inr (is_substring field s)
      | _ \<Rightarrow> Inl (''argument of type '' @ [CHR 0x27] @ type_name v @ [CHR 0x27]
                  @ '' is not iterable''))"

text \<open>
  The loop over \<open>required_fields\<close>: the first field that is not in the scores
  (\<open>Inr (Some field)\<close>), none (\<open>Inr None\<close>), or the exception of the membership
  test.
\<close>

fun first_missing :: "json \<Rightarrow> string list \<Rightarrow> string + string option" where
  "first_missing scores [] = Inr None"
| "first_missing scores (field # rest) =
     (case py_in field scores of
        Inl msg \<Rightarrow> Inl msg
      | Inr present \<Rightarrow> if present then first_missing scores rest else Inr (Some field))"

definition error_response :: "nat \<Rightarrow> string \<Rightarrow> nat \<times> dict" where
  "error_response status msg = (status, [(''success'', JBool False), (''error'', JStr msg)])"

definition api_save_scores :: "request \<Rightarrow> clock \<Rightarrow> disk \<Rightarrow> disk \<times> nat \<times> dict" where
  "api_save_scores req t d =
     (case req of
        NoJson msg \<Rightarrow> (d, error_response 500 msg)
      | JsonBody data \<Rightarrow>
         (case data of
            JObj body \<Rightarrow>
              (let query_id = dict_get body ''query_id'';
                   scores = dict_get body ''scores''
               in if query_id = JNull then (d, error_response 400 ''Missing required fields'')
                  else if \<not> truthy scores then (d, error_response 400 ''Missing required fields'')
                  else
                    (case first_missing scores required_fields of
                       Inl msg \<Rightarrow> (d, error_response 500 msg)
                     | Inr (Some field) \<Rightarrow>
                         (d, error_response 400 (''Missing score field: '' @ field))
                     | Inr None \<Rightarrow>
                         (let (d', success) = save_scores query_id scores t d
                          in (d', 200, [(''success'', JBool success),
                                        (''message'', JStr ''Scores saved'')]))))
          | _ \<Rightarrow>
              (d, error_response 500
                    ([CHR 0x27] @ type_name data @ [CHR 0x27]
                     @ '' object has no attribute '' @ [CHR 0x27] @ ''get'' @ [CHR 0x27]))))"

definition full_scores :: dict where
  "full_scores =
     [(''chatgpt_relevance'', JInt 4), (''chatgpt_completeness'', JInt 4),
      (''chatgpt_source_quality'', JInt 3), (''google_relevance'', JInt 5),
      (''google_completeness'', JInt 4), (''google_source_quality'', JInt 4),
      (''chatgpt_intent_understood'', JBool True), (''google_intent_understood'', JBool True)]"

text \<open>A request whose \<open>scores\<close> are the list of the required field names.\<close>

definition names_as_list :: request where
  "names_as_list =
     JsonBody (JObj [(''query_id'', JInt 0), (''scores'', JArr (map JStr required_fields))])"
section \<open>Stratified sampling (sampling.py)\<close>

text \<open>
  \<open>random.sample(population, k)\<close> returns \<open>k\<close> elements at pairwise different
  positions of the population, in the order drawn. The generator is an explicit tape of
  numbers: each draw takes the next number \<open>r\<close> (0 when the tape is used up), picks
  the element at position \<open>r mod len\<close> of what is left and removes that position.
  Every result \<open>random.sample\<close> can produce is the result for some tape, and the
  properties below hold for every tape.
\<close>

fun random_sample :: "nat list \<Rightarrow> 'a list \<Rightarrow> nat \<Rightarrow> 'a list \<times> nat list" where
  "random_sample tape xs 0 = ([], tape)"
| "random_sample tape [] (Suc n) = ([], tape)"
| "random_sample tape (x # xs) (Suc n) =
     (let r = (case tape of [] \<Rightarrow> 0 | r # rs \<Rightarrow> r);
          tape1 = (case tape of [] \<Rightarrow> [] | r # rs \<Rightarrow> rs);
          i = r mod length (x # xs);
          (ys, tape2) = random_sample tape1 (take i (x # xs) @ drop (Suc i) (x # xs)) n
      in ((x # xs) ! i # ys, tape2))"

text \<open>\<open>query.get(key, 'Unknown')\<close> for the three characteristics, and \<open>q['id']\<close>.\<close>

definition category_of :: "query \<Rightarrow> string" where
  "category_of q = (case category q of None \<Rightarrow> ''Unknown'' | Some c \<Rightarrow> c)"

definition quality_of :: "query \<Rightarrow> string" where
  "quality_of q = (case quality q of None \<Rightarrow> ''Unknown'' | Some c \<Rightarrow> c)"

definition intent_of :: "query \<Rightarrow> string" where
  "intent_of q = (case intent_clarity q of None \<Rightarrow> ''Unknown'' | Some c \<Rightarrow> c)"

text \<open>
  \<open>q['id']\<close> raises \<open>KeyError\<close> when the key is absent; \<open>select_stratified_sample\<close>
  evaluates it for every query in its first loop, so the model checks all ids first
  and reads them with \<open>id_of\<close> afterwards.
\<close>

definition id_of :: "query \<Rightarrow> int" where
  "id_of q = (case qid q of None \<Rightarrow> 0 | Some i \<Rightarrow> i)"

text \<open>
  The grouping loop: \<open>if k not in by: by[k] = []\<close> and then \<open>by[k].append(query)\<close>.
  Keys stay in the order of their first occurrence.
\<close>

definition add_group ::
  "(string \<times> query list) list \<Rightarrow> string \<Rightarrow> query \<Rightarrow> (string \<times> query list) list" where
  "add_group by k q =
     (let by1 = (if \<not> dict_has by k then dict_set by k [] else by)
      in dict_set by1 k ((case map_of by1 k of None \<Rightarrow> [] | Some g \<Rightarrow> g) @ [q]))"

definition group_by :: "(query \<Rightarrow> string) \<Rightarrow> query list \<Rightarrow> (string \<times> query list) list" where
  "group_by key queries = fold (\<lambda>q by. add_group by (key q) q) queries []"

text \<open>\<open>by.get(k, [])\<close>.\<close>

definition group_get :: "(string \<times> query list) list \<Rightarrow> string \<Rightarrow> query list" where
  "group_get by k = (case map_of by k of None \<Rightarrow> [] | Some g \<Rightarrow> g)"

text \<open>The loop over the categories, on the state \<open>(selected, selected_ids, tape)\<close>.\<close>

fun category_loop ::
  "(string \<times> query list) list \<Rightarrow> nat \<Rightarrow> string list \<Rightarrow>
   query list \<times> int set \<times> nat list \<Rightarrow> query list \<times> int set \<times> nat list" where
  "category_loop by_category samples_per_category [] st = st"
| "category_loop by_category samples_per_category (c # cs) (selected, selected_ids, tape) =
     (let available = filter (\<lambda>q. id_of q \<notin> selected_ids) (group_get by_category c);
          n = min samples_per_category (length available);
          (sampled, tape1) = random_sample tape available n
      in category_loop by_category samples_per_category cs
           (selected @ sampled, selected_ids \<union> set (map id_of sampled), tape1))"

text \<open>\<open>list({q['id']: q for q in qs}.values())\<close>.\<close>

definition dedup_by_id :: "query list \<Rightarrow> query list" where
  "dedup_by_id qs = map snd (fold (\<lambda>q d. dict_set d (id_of q) q) qs [])"

text \<open>
  The second phase (\<open>if remaining > 0\<close>): the queries of poor quality and of low
  intent clarity that are not selected yet, without duplicates, are sampled into the
  remaining slots. The result is \<open>(selected, selected_ids, remaining, tape)\<close>.
\<close>

definition priority_phase ::
  "(string \<times> query list) list \<Rightarrow> (string \<times> query list) list \<Rightarrow> int \<Rightarrow>
   query list \<times> int set \<times> nat list \<Rightarrow> query list \<times> int set \<times> int \<times> nat list" where
  "priority_phase by_quality by_intent remaining st =
     (case st of (selected, selected_ids, tape) \<Rightarrow>
        if remaining > 0
        then
          (let poor_quality = group_get by_quality ''Poorly-formed''
                              @ group_get by_quality ''Ambiguous'';
               low_intent = group_get by_intent ''Low'' @ group_get by_intent ''Very Low'';
               priority_groups =
                 dedup_by_id (filter (\<lambda>q. id_of q \<notin> selected_ids) poor_quality
                              @ filter (\<lambda>q. id_of q \<notin> selected_ids) low_intent)
           in if priority_groups \<noteq> []
              then
                (let n = min (nat remaining) (length priority_groups);
                     (sampled, tape1) = random_sample tape priority_groups n
                 in (selected @ sampled, selected_ids \<union> set (map id_of sampled),
                     remaining - int n, tape1))
              else (selected, selected_ids, remaining, tape))
        else (selected, selected_ids, remaining, tape))"

text \<open>The third phase: any slots still open are filled from all unselected queries.\<close>

definition fill_phase ::
  "query list \<Rightarrow> query list \<times> int set \<times> int \<times> nat list \<Rightarrow> query list" where
  "fill_phase queries st =
     (case st of (selected, selected_ids, remaining, tape) \<Rightarrow>
        if remaining > 0
        then
          (let available = filter (\<lambda>q. id_of q \<notin> selected_ids) queries
           in if available \<noteq> []
              then
                (let n = min (nat remaining) (length available);
                     (sampled, tape1) = random_sample tape available n
                 in selected @ sampled)
              else selected)
        else selected)"

text \<open>
  \<open>sample_size // len(categories)\<close> raises \<open>ZeroDivisionError\<close> for an empty
  list of queries. The result is sorted by id with Python's stable sort.
\<close>

definition select_stratified_sample ::
  "nat list \<Rightarrow> query list \<Rightarrow> int \<Rightarrow> py_error + query list" where
  "select_stratified_sample tape queries sample_size =
     (let by_category = group_by category_of queries;
          by_quality = group_by quality_of queries;
          by_intent = group_by intent_of queries;
          categories = map fst by_category
      in if categories = [] then Inl ZeroDivisionError
         else if list_ex (\<lambda>q. qid q = None) queries then Inl KeyError
         else
           (let samples_per_category = max 1 (sample_size div int (length categories));
                st1 = category_loop by_category (nat samples_per_category) categories ([], {}, tape);
                remaining = sample_size - int (length (fst st1));
                st2 = priority_phase by_quality by_intent remaining st1;
                selected3 = fill_phase queries st2
            in Inr (sort_key id_of selected3)))"

text \<open>
  The state of the selection is consistent: no query is selected twice, every selected
  query is one of the input, and \<open>selected_ids\<close> holds exactly the ids selected.
\<close>

definition sel_inv :: "query list \<Rightarrow> query list \<Rightarrow> int set \<Rightarrow> bool" where
  "sel_inv queries selected selected_ids =
     (distinct selected \<and> set selected \<subseteq> set queries \<and> selected_ids = id_of ` set selected)"

definition mk_query :: "int \<Rightarrow> string \<Rightarrow> string \<Rightarrow> string \<Rightarrow> query" where
  "mk_query i c qual intent =
     \<lparr>qid = Some i, qtext = Some ''text'', category = Some c, quality = Some qual,
      intent_clarity = Some intent, chatgpt_response = None, google_response = None\<rparr>"

definition three_categories :: "query list" where
  "three_categories =
     [mk_query 2 ''Factual'' ''Well-formed'' ''High'',
      mk_query 0 ''How-to'' ''Ambiguous'' ''Low'',
      mk_query 1 ''Opinion'' ''Poorly-formed'' ''Medium'']"

definition six_queries :: "query list" where
  "six_queries =
     three_categories
     @ [mk_query 7 ''Factual'' ''Ambiguous'' ''Low'',
        mk_query 5 ''Factual'' ''Ambiguous'' ''Low'',
        mk_query 9 ''Factual'' ''Typos/Informal'' ''Very Low'']"

section \<open>The batch runner (chatgpt\_client.py)\<close>

text \<open>
  The OpenAI endpoint is an external collaborator: \<open>api n text\<close> is what the
  \<open>n\<close>-th call of \<open>client.chat.completions.create\<close> of this run does for the
  query \<open>text\<close>. It raises (timeout, API error, malformed answer) or returns the
  fields that \<open>query_chatgpt\<close> reads. The request parameters (model,
  temperature, web search options) do not influence what the client does with the
  answer and are left out.
\<close>

record api_response =
  content :: string
  model_name :: string
  total_tokens :: int
  prompt_tokens :: int
  completion_tokens :: int
  finish_reason :: string
  annotations :: nat
  elapsed_ms :: int

datatype api_outcome = Raises | Returns api_response

type_synonym api = "nat \<Rightarrow> string \<Rightarrow> api_outcome"

text \<open>
  What the client does that can be observed from outside, in order: calls of the
  endpoint, the two kinds of \<open>time.sleep\<close> (the backoff in \<open>query_with_retry\<close>
  and the rate limit in \<open>batch_query\<close>), the outcome recorded for the item at an
  index of the batch (the entry appended to \<open>results\<close>, with its \<open>[OK]\<close> or
  \<open>[FAIL]\<close> line), and the call of the callback.
\<close>

datatype event =
    Invoke string
  | BackoffSleep real
  | RateLimitSleep real
  | Outcome nat bool
  | Callback nat

record client_state =
  calls :: nat
  trace :: "event list"

text \<open>\<open>config.json\<close>; a key may be absent, \<open>config.get(key, default)\<close> reads it.\<close>

record config =
  cfg_rate_limit_delay :: "real option"
  cfg_retry_attempts :: "nat option"
  cfg_retry_delay :: "real option"

definition rate_limit_delay :: "config \<Rightarrow> real" where
  "rate_limit_delay cfg = (case cfg_rate_limit_delay cfg of None \<Rightarrow> 1 | Some d \<Rightarrow> d)"

definition retry_attempts :: "config \<Rightarrow> nat" where
  "retry_attempts cfg = (case cfg_retry_attempts cfg of None \<Rightarrow> 3 | Some n \<Rightarrow> n)"

definition retry_delay :: "config \<Rightarrow> real" where
  "retry_delay cfg = (case cfg_retry_delay cfg of None \<Rightarrow> 2 | Some d \<Rightarrow> d)"

text \<open>
  \<open>time.sleep(d)\<close> raises \<open>ValueError\<close> for a negative \<open>d\<close> and sleeps
  otherwise; \<open>mk\<close> says which of the two sleeps of the client it is. \<open>emit\<close> adds
  an event that cannot fail.
\<close>

definition time_sleep :: "(real \<Rightarrow> event) \<Rightarrow> real \<Rightarrow> client_state \<Rightarrow> py_error + client_state" where
  "time_sleep mk d st = (if d < 0 then Inl ValueError else Inr (st\<lparr>trace := trace st @ [mk d]\<rparr>))"

definition emit :: "event \<Rightarrow> client_state \<Rightarrow> client_state" where
  "emit e st = st\<lparr>trace := trace st @ [e]\<rparr>"

text \<open>
  \<open>query_chatgpt\<close>: the whole body is inside \<open>try\<close>, and the \<open>except Exception\<close>
  clause returns \<open>None\<close>. The function therefore never raises: its result is always
  \<open>Inr\<close>. The response time is the measured \<open>elapsed_ms\<close>.
\<close>

definition query_chatgpt ::
  "api \<Rightarrow> clock \<Rightarrow> string \<Rightarrow> client_state \<Rightarrow> (py_error + dict option) \<times> client_state" where
  "query_chatgpt api t query_text st =
     (let st1 = st\<lparr>calls := Suc (calls st), trace := trace st @ [Invoke query_text]\<rparr>
      in case api (calls st) query_text of
           Raises \<Rightarrow> (Inr None, st1)
         | Returns r \<Rightarrow>
             (Inr (Some
                ([(''response'', JStr (content r)), (''model'', JStr (model_name r)),
                  (''timestamp'', JStr (isoformat t)), (''response_time_ms'', JInt (elapsed_ms r)),
                  (''tokens_used'', JInt (total_tokens r)), (''prompt_tokens'', JInt (prompt_tokens r)),
                  (''completion_tokens'', JInt (completion_tokens r)),
                  (''finish_reason'', JStr (finish_reason r))]
                 @ (if 0 < annotations r
                    then [(''web_search_used'', JBool True),
                          (''web_search_citations_count'', JInt (int (annotations r)))]
                    else [(''web_search_used'', JBool False),
                          (''web_search_citations_count'', JInt 0)]))),
              st1))"

text \<open>
  The loop \<open>for attempt in range(max_attempts)\<close> of \<open>query_with_retry\<close>, over the
  attempts still to make. A result that is not \<open>None\<close> is returned; \<open>None\<close> goes
  on to the next attempt at once; the backoff sleep is in the \<open>except\<close> clause, for
  an exception raised by \<open>query_chatgpt\<close>, and an exception raised by that sleep
  leaves the function.
\<close>

fun retry_loop ::
  "api \<Rightarrow> config \<Rightarrow> clock \<Rightarrow> string \<Rightarrow> nat \<Rightarrow> nat list \<Rightarrow> client_state \<Rightarrow>
   py_error + dict option \<times> client_state" where
  "retry_loop api cfg t query_text max_attempts [] st = Inr (None, st)"
| "retry_loop api cfg t query_text max_attempts (attempt # rest) st =
     (case query_chatgpt api t query_text st of
        (Inr (Some result), st1) \<Rightarrow> Inr (Some result, st1)
      | (Inr None, st1) \<Rightarrow> retry_loop api cfg t query_text max_attempts rest st1
      | (Inl e, st1) \<Rightarrow>
          if int attempt < int max_attempts - 1
          then (case time_sleep BackoffSleep (retry_delay cfg * 2 ^ attempt) st1 of
                  Inl e' \<Rightarrow> Inl e'
                | Inr st2 \<Rightarrow> retry_loop api cfg t query_text max_attempts rest st2)
          else retry_loop api cfg t query_text max_attempts rest st1)"

definition query_with_retry ::
  "api \<Rightarrow> config \<Rightarrow> clock \<Rightarrow> string \<Rightarrow> client_state \<Rightarrow>
   py_error + dict option \<times> client_state" where
  "query_with_retry api cfg t query_text st =
     retry_loop api cfg t query_text (retry_attempts cfg) [0 ..< retry_attempts cfg] st"

record batch_result =
  r_query_id :: "int option"
  r_success :: bool
  r_data :: "dict option"
  r_error :: "string option"


text \<open>
  The loop of \<open>batch_query\<close> over \<open>enumerate(queries)\<close>, from index \<open>idx\<close> on. A
  query without text is skipped by \<open>continue\<close>, before anything else happens for it.
  Nothing in the loop catches an exception: one raised by \<open>time.sleep\<close> ends the
  batch.
\<close>

fun batch_loop ::
  "api \<Rightarrow> config \<Rightarrow> clock \<Rightarrow> bool \<Rightarrow> nat \<Rightarrow> nat \<Rightarrow> query list \<Rightarrow>
   batch_result list \<times> client_state \<Rightarrow> py_error + batch_result list \<times> client_state" where
  "batch_loop api cfg t has_callback ntotal idx [] acc = Inr acc"
| "batch_loop api cfg t has_callback ntotal idx (query # rest) (results, st) =
     (case qtext query of
        None \<Rightarrow> batch_loop api cfg t has_callback ntotal (Suc idx) rest (results, st)
      | Some query_text \<Rightarrow>
          if query_text = []
          then batch_loop api cfg t has_callback ntotal (Suc idx) rest (results, st)
          else
            (case query_with_retry api cfg t query_text st of
               Inl e \<Rightarrow> Inl e
             | Inr (result, st1) \<Rightarrow>
                (let ok = (case result of None \<Rightarrow> False | Some r \<Rightarrow> r \<noteq> []);
                     results1 = results @
                       [if ok
                        then \<lparr>r_query_id = qid query, r_success = True, r_data = result,
                              r_error = None\<rparr>
                        else \<lparr>r_query_id = qid query, r_success = False, r_data = None,
                              r_error = Some ''Failed after retries''\<rparr>];
                     st2 = emit (Outcome idx ok) st1;
                     st3 = (if has_callback then emit (Callback idx) st2 else st2)
                 in if int idx < int ntotal - 1
                    then (case time_sleep RateLimitSleep (rate_limit_delay cfg) st3 of
                            Inl e \<Rightarrow> Inl e
                          | Inr st4 \<Rightarrow>
                              batch_loop api cfg t has_callback ntotal (Suc idx) rest (results1, st4))
                    else batch_loop api cfg t has_callback ntotal (Suc idx) rest (results1, st3))))"

definition batch_query ::
  "api \<Rightarrow> config \<Rightarrow> clock \<Rightarrow> bool \<Rightarrow> query list \<Rightarrow> client_state \<Rightarrow>
   py_error + batch_result list \<times> client_state" where
  "batch_query api cfg t has_callback queries st =
     batch_loop api cfg t has_callback (length queries) 0 queries ([], st)"






definition no_config :: config where
  "no_config = \<lparr>cfg_rate_limit_delay = None, cfg_retry_attempts = None, cfg_retry_delay = None\<rparr>"

definition fresh_client :: client_state where
  "fresh_client = \<lparr>calls = 0, trace = []\<rparr>"

definition paris :: api_response where
  "paris = \<lparr>content = ''Paris'', model_name = ''gpt-4-turbo'', total_tokens = 30,
            prompt_tokens = 20, completion_tokens = 10, finish_reason = ''stop'',
            annotations = 0, elapsed_ms = 812\<rparr>"

definition fails_twice :: api where
  "fails_twice n text = (if n < 2 then Raises else Returns paris)"

definition always_fails :: api where
  "always_fails n text = Raises"

definition first_fails :: api where
  "first_fails n text = (if n < 3 then Raises else Returns paris)"

definition q1 :: query where
  "q1 = \<lparr>qid = Some 1, qtext = Some ''capital of Peru'', category = Some ''Factual'',
         quality = Some ''Well-formed'', intent_clarity = Some ''High'',
         chatgpt_response = None, google_response = None\<rparr>"

definition paris_result :: dict where
  "paris_result =
     [(''response'', JStr ''Paris''), (''model'', JStr ''gpt-4-turbo''),
      (''timestamp'', JStr (isoformat t1)), (''response_time_ms'', JInt 812),
      (''tokens_used'', JInt 30), (''prompt_tokens'', JInt 20),
      (''completion_tokens'', JInt 10), (''finish_reason'', JStr ''stop''),
      (''web_search_used'', JBool False), (''web_search_citations_count'', JInt 0)]"



definition negative_delay :: config where
  "negative_delay = \<lparr>cfg_rate_limit_delay = Some (- 1), cfg_retry_attempts = None,
                      cfg_retry_delay = None\<rparr>"
section \<open>The paired test (analyzer.py)\<close>

text \<open>
  The statistics are computed on numpy's 64-bit floats. What the claims about them
  depend on is not rounding but the special values: a float is a finite number, an
  infinity or NaN. Finite arithmetic is taken over the reals; division follows IEEE 754
  as numpy applies it to scalars (a warning, no exception): \<open>0/0\<close> is NaN and
  \<open>x/0\<close> is an infinity; every comparison with NaN is false.
\<close>

datatype float64 = Finite real | PosInf | NegInf | NaN

fun fdiv :: "float64 \<Rightarrow> float64 \<Rightarrow> float64" where
  "fdiv (Finite a) (Finite b) =
     (if b = 0 then (if a = 0 then NaN else if 0 < a then PosInf else NegInf)
      else Finite (a / b))"
| "fdiv (Finite a) PosInf = Finite 0"
| "fdiv (Finite a) NegInf = Finite 0"
| "fdiv (Finite a) NaN = NaN"
| "fdiv PosInf y = (case y of Finite b \<Rightarrow> if 0 \<le> b then PosInf else NegInf | _ \<Rightarrow> NaN)"
| "fdiv NegInf y = (case y of Finite b \<Rightarrow> if 0 \<le> b then NegInf else PosInf | _ \<Rightarrow> NaN)"
| "fdiv NaN y = NaN"

fun fabs :: "float64 \<Rightarrow> float64" where
  "fabs (Finite a) = Finite \<bar>a\<bar>"
| "fabs PosInf = PosInf"
| "fabs NegInf = PosInf"
| "fabs NaN = NaN"

text \<open>\<open>x < c\<close> for a finite constant \<open>c\<close>.\<close>

fun fless :: "float64 \<Rightarrow> real \<Rightarrow> bool" where
  "fless (Finite a) c = (a < c)"
| "fless NegInf c = True"
| "fless PosInf c = False"
| "fless NaN c = False"

text \<open>\<open>round(x, ndigits)\<close>: to the nearest multiple of \<open>10^-ndigits\<close>, ties to even; NaN and the infinities are returned as they are.\<close>

definition round_half_even :: "real \<Rightarrow> int" where
  "round_half_even y =
     (let f = \<lfloor>y\<rfloor>; r = y - of_int f
      in if r < 1 / 2 then f else if 1 / 2 < r then f + 1 else if even f then f else f + 1)"

fun py_round :: "float64 \<Rightarrow> nat \<Rightarrow> float64" where
  "py_round (Finite a) ndigits = Finite (of_int (round_half_even (a * 10 ^ ndigits)) / 10 ^ ndigits)"
| "py_round x ndigits = x"

text \<open>
  A DataFrame: its column names and its rows; a row gives the numeric cells that are
  present (a missing key stands for NaN or \<open>None\<close> in that cell).
\<close>

record dataframe =
  df_columns :: "string list"
  df_rows :: "(string \<times> real) list list"

definition mean :: "real list \<Rightarrow> real" where
  "mean xs = sum_list xs / real (length xs)"

text \<open>\<open>Series.std()\<close>: the sample standard deviation (\<open>ddof = 1\<close>).\<close>

definition std :: "real list \<Rightarrow> real" where
  "std xs = sqrt (sum_list (map (\<lambda>x. (x - mean xs)\<^sup>2) xs) / (real (length xs) - 1))"

definition interpret_cohens_d :: "float64 \<Rightarrow> string" where
  "interpret_cohens_d d =
     (let abs_d = fabs d
      in if fless abs_d (2 / 10) then ''negligible''
         else if fless abs_d (5 / 10) then ''small''
         else if fless abs_d (8 / 10) then ''medium''
         else ''large'')"

record t_test_result =
  tt_metric :: string
  tt_n :: nat
  tt_chatgpt_mean :: float64
  tt_google_mean :: float64
  tt_difference :: float64
  tt_t_statistic :: float64
  tt_p_value :: float64
  tt_significant :: bool
  tt_cohens_d :: float64
  tt_interpretation :: string

text \<open>
  \<open>paired_t_test\<close>. \<open>scipy.stats.ttest_rel\<close> is a library function outside the
  repository; it is the parameter \<open>ttest_rel\<close>, from the two paired vectors to the
  t statistic and the p-value. A result \<open>{'error': msg}\<close> is \<open>Inl msg\<close>.
\<close>

definition paired_t_test ::
  "(real list \<Rightarrow> real list \<Rightarrow> float64 \<times> float64) \<Rightarrow> dataframe \<Rightarrow> string \<Rightarrow>
   string + t_test_result" where
  "paired_t_test ttest_rel df metric =
     (let chatgpt_col = ''chatgpt_'' @ metric;
          google_col = ''google_'' @ metric
      in if chatgpt_col \<notin> set (df_columns df) \<or> google_col \<notin> set (df_columns df)
         then Inl (''Metric '' @ metric @ '' not found'')
         else
           (let paired_df = filter (\<lambda>row. map_of row chatgpt_col \<noteq> None
                                         \<and> map_of row google_col \<noteq> None) (df_rows df)
            in if length paired_df < 2 then Inl ''Insufficient data for t-test''
               else
                 (let chatgpt_scores = map (\<lambda>row. the (map_of row chatgpt_col)) paired_df;
                      google_scores = map (\<lambda>row. the (map_of row google_col)) paired_df;
                      (t_statistic, p_value) = ttest_rel chatgpt_scores google_scores;
                      chatgpt_mean = mean chatgpt_scores;
                      google_mean = mean google_scores;
                      diff = map (\<lambda>(a, b). a - b) (zip chatgpt_scores google_scores);
                      cohens_d = fdiv (Finite (mean diff)) (Finite (std diff));
                      significant = fless p_value (5 / 100)
                  in Inr \<lparr>tt_metric = metric,
                          tt_n = length paired_df,
                          tt_chatgpt_mean = py_round (Finite chatgpt_mean) 2,
                          tt_google_mean = py_round (Finite google_mean) 2,
                          tt_difference = py_round (Finite (google_mean - chatgpt_mean)) 2,
                          tt_t_statistic = py_round t_statistic 3,
                          tt_p_value = py_round p_value 4,
                          tt_significant = significant,
                          tt_cohens_d = py_round cohens_d 3,
                          tt_interpretation = interpret_cohens_d cohens_d\<rparr>)))"

definition equal_scores :: dataframe where
  "equal_scores =
     \<lparr>df_columns = [''query_id'', ''chatgpt_relevance'', ''google_relevance''],
      df_rows = [[(''query_id'', 0), (''chatgpt_relevance'', 4), (''google_relevance'', 4)],
                 [(''query_id'', 1), (''chatgpt_relevance'', 3), (''google_relevance'', 3)],
                 [(''query_id'', 2), (''chatgpt_relevance'', 5)]]\<rparr>"

section \<open>Properties of the persisted state\<close>

lemmas dm_eval =
  empty_disk_def t1_def t2_def q0_def answer_a_def answer_b_def some_scores_def
  full_scores_def one_response_disk_def two_results_disk_def
  progress_invariant_def stored_def field_of_def
  save_result_def save_scores_def update_progress_def
  load_results_def load_progress_def load_queries_def
  reset_progress_def remove_file_def
  write_file_def backup_file_def exists_file_def backup_path_def
  RESULTS_FILE_def PROGRESS_FILE_def QUERY_FILE_def
  dict_has_def dict_get_def dict_get_default_def
  new_result_entry_def new_progress_entry_def
  py_str_def str_int_def str_nat.simps entry_ok_def flag_def Let_def

lemmas api_eval =
  api_save_scores_def error_response_def required_fields_def names_as_list_def
  py_in_def

lemma map_of_dict_set: "map_of (dict_set d k v) = (map_of d)(k \<mapsto> v)"
  by (induction d) auto

lemma backup_path_neq [simp]:
  "backup_path RESULTS_FILE t \<noteq> PROGRESS_FILE"
  "backup_path PROGRESS_FILE t \<noteq> PROGRESS_FILE"
  "backup_path RESULTS_FILE t \<noteq> RESULTS_FILE"
  "backup_path PROGRESS_FILE t \<noteq> RESULTS_FILE"
  "RESULTS_FILE \<noteq> PROGRESS_FILE"
  "PROGRESS_FILE \<noteq> RESULTS_FILE"
  "PROGRESS_FILE \<noteq> backup_path RESULTS_FILE t"
  "PROGRESS_FILE \<noteq> backup_path PROGRESS_FILE t"
  "RESULTS_FILE \<noteq> backup_path RESULTS_FILE t"
  "RESULTS_FILE \<noteq> backup_path PROGRESS_FILE t"
  by (simp_all add: backup_path_def RESULTS_FILE_def PROGRESS_FILE_def)

lemma update_progress_other_files:
  assumes "p \<noteq> PROGRESS_FILE" and "p \<noteq> backup_path PROGRESS_FILE t"
  shows "files (fst (update_progress query_id f t d)) p = files d p"
proof (cases "files d PROGRESS_FILE")
  case Missing
  then show ?thesis
    using assms
    by (simp add: update_progress_def load_progress_def write_file_def Let_def dict_has_def
        new_progress_entry_def)
next
  case Corrupt
  then show ?thesis
    using assms
    by (simp add: update_progress_def load_progress_def write_file_def backup_file_def Let_def
        dict_has_def new_progress_entry_def)
next
  case Unreadable
  then show ?thesis
    by (simp add: update_progress_def load_progress_def)
next
  case (Content s)
  then show ?thesis
    using assms
    by (simp add: update_progress_def load_progress_def write_file_def Let_def
        split: option.splits json.splits)
qed

lemma update_progress_results:
  "files (fst (update_progress query_id f t d)) RESULTS_FILE = files d RESULTS_FILE"
  by (simp add: update_progress_other_files)

text \<open>
  C1: the code differs from the claim. \<open>save_scores\<close> checks that the query has a
  results entry and nothing else, and \<open>update_progress\<close> then sets \<open>scored\<close> on
  the progress entry as it is, or on a fresh entry with every flag false. After
  \<open>save_result\<close> for one assistant, \<open>save_scores\<close> leaves the progress entry of
  query 0 with \<open>scored\<close> set and \<open>google_done\<close> unset. The save-scores endpoint
  reaches this: it validates the names of the score fields only, answers 200 and
  stores the scores of a query whose second response is still \<open>None\<close>. And after
  both responses were saved and \<open>reset_progress\<close> removed the progress file,
  \<open>save_scores\<close> creates an entry whose only set flag is \<open>scored\<close>.
\<close>

theorem C1_scored_without_both_responses:
  "stored (run_ops [SaveResult (JInt 0) ''chatgpt'' answer_a t1,
                    SaveScores (JInt 0) (JObj some_scores) t2] empty_disk) PROGRESS_FILE =
     [(''0'', JObj [(''chatgpt_done'', JBool True), (''google_done'', JBool False),
                   (''scored'', JBool True), (''last_updated'', JStr (isoformat t2))])]
   \<and> \<not> progress_invariant
         (run_ops [SaveResult (JInt 0) ''chatgpt'' answer_a t1,
                   SaveScores (JInt 0) (JObj some_scores) t2] empty_disk)
   \<and> snd (api_save_scores
             (JsonBody (JObj [(''query_id'', JInt 0), (''scores'', JObj full_scores)]))
             t2 one_response_disk) =
       (200, [(''success'', JBool True), (''message'', JStr ''Scores saved'')])
   \<and> field_of (stored (fst (api_save_scores
             (JsonBody (JObj [(''query_id'', JInt 0), (''scores'', JObj full_scores)]))
             t2 one_response_disk)) RESULTS_FILE) ''0'' ''google'' = JNull
   \<and> \<not> progress_invariant
         (fst (api_save_scores
             (JsonBody (JObj [(''query_id'', JInt 0), (''scores'', JObj full_scores)]))
             t2 one_response_disk))
   \<and> stored (run_ops [SaveScores (JInt 0) (JObj some_scores) t2]
          (fst (reset_progress t2
             (run_ops [SaveResult (JInt 0) ''chatgpt'' answer_a t1,
                       SaveResult (JInt 0) ''google'' answer_b t1] empty_disk)))) PROGRESS_FILE =
     [(''0'', JObj [(''chatgpt_done'', JBool False), (''google_done'', JBool False),
                   (''scored'', JBool True), (''last_updated'', JStr (isoformat t2))])]"
  by (simp add: dm_eval api_eval split_beta)

text \<open>
  C2: the code differs from the claim. After both responses of query 0 were saved and
  the automated judge stored \<open>llm_scores\<close> for it (which does not touch the progress
  file), \<open>get_queries_needing_scores\<close> still returns query 0, because it decides
  from the progress flags alone.
\<close>

theorem C2_needing_scores_ignores_llm_scores:
  "snd (get_queries_needing_scores t2 judged_disk) =
     Inr [q0\<lparr>chatgpt_response := Some (JObj (answer_a @ [(''timestamp'', JStr (isoformat t1))])),
             google_response := Some (JObj (answer_b @ [(''timestamp'', JStr (isoformat t1))]))\<rparr>]
   \<and> truthy (field_of (stored judged_disk RESULTS_FILE) ''0'' ''chatgpt'')
   \<and> truthy (field_of (stored judged_disk RESULTS_FILE) ''0'' ''google'')
   \<and> truthy (field_of (stored judged_disk RESULTS_FILE) ''0'' ''llm_scores'')"
  by (simp add: judged_disk_def judge_save_def judge_store_scores_def
      get_queries_needing_scores_def needs_scores_def obj_get_def dm_eval)

text \<open>
  C6: the code differs from the claim. \<open>save_result\<close> and \<open>save_scores\<close> copy
  an existing results file to a backup before they rewrite it, but \<open>update_progress\<close>
  rewrites an existing progress file and creates no file besides: the previous
  progress object is lost.
\<close>

theorem C6_update_progress_makes_no_backup:
  "files (run_ops [SaveResult (JInt 0) ''chatgpt'' answer_a t1] empty_disk) PROGRESS_FILE =
     Content [(''0'', JObj [(''chatgpt_done'', JBool True), (''google_done'', JBool False),
                           (''scored'', JBool False),
                           (''last_updated'', JStr (isoformat t1))])]
   \<and> files (fst (update_progress (JInt 0) ''google_done'' t2
               (run_ops [SaveResult (JInt 0) ''chatgpt'' answer_a t1] empty_disk))) =
       (files (run_ops [SaveResult (JInt 0) ''chatgpt'' answer_a t1] empty_disk))
         (PROGRESS_FILE :=
            Content [(''0'', JObj [(''chatgpt_done'', JBool True), (''google_done'', JBool True),
                                  (''scored'', JBool False),
                                  (''last_updated'', JStr (isoformat t2))])])
   \<and> files (fst (update_progress (JInt 0) ''google_done'' t2
               (run_ops [SaveResult (JInt 0) ''chatgpt'' answer_a t1] empty_disk)))
         (backup_path PROGRESS_FILE t2) = Missing
   \<and> files (run_ops [SaveResult (JInt 0) ''chatgpt'' answer_a t1,
                      SaveResult (JInt 0) ''google'' answer_b t2] empty_disk)
         (backup_path RESULTS_FILE t2) =
       files (run_ops [SaveResult (JInt 0) ''chatgpt'' answer_a t1] empty_disk) RESULTS_FILE"
  by (simp add: dm_eval)

lemma load_results_stored:
  "load_results t d = Inr (d1, results) \<Longrightarrow> results = stored d RESULTS_FILE"
  by (auto simp: load_results_def stored_def split: file_state.splits)

lemma save_result_stored:
  assumes "save_result query_id platform response_data t d = (d', True)"
  shows "\<exists>e. map_of (if dict_has (stored d RESULTS_FILE) (py_str query_id) then stored d RESULTS_FILE
                     else dict_set (stored d RESULTS_FILE) (py_str query_id) (new_result_entry query_id))
                 (py_str query_id) = Some (JObj e)
           \<and> stored d' RESULTS_FILE =
              dict_set (if dict_has (stored d RESULTS_FILE) (py_str query_id) then stored d RESULTS_FILE
                     else dict_set (stored d RESULTS_FILE) (py_str query_id) (new_result_entry query_id))
                (py_str query_id) (JObj (dict_set e platform (JObj (stamped response_data t))))"
proof (cases "load_results t d")
  case (Inl e)
  then show ?thesis
    using assms by (simp add: save_result_def)
next
  case (Inr p)
  obtain d1 results where p: "p = (d1, results)"
    by (cases p)
  have lr: "load_results t d = Inr (d1, results)"
    using Inr p by simp
  have res: "results = stored d RESULTS_FILE"
    using lr by (rule load_results_stored)
  show ?thesis
    using assms
    by (auto simp: save_result_def lr res Let_def split_beta stamped_def
        stored_def [of _ RESULTS_FILE] update_progress_results write_file_def
        split: option.splits json.splits if_splits)
qed

text \<open>
  C10: a successful \<open>save_result\<close> leaves every other query's entry of the persisted
  results store as it was, leaves every field of the query's own entry other than the
  given platform's as it was (so the other platform's response and \<open>scores\<close>; a
  missing entry reads as \<open>None\<close> in every field, and only \<open>query_id\<close> is new when
  the entry is created), and stores the payload, with a timestamp added if it had
  none, under the platform.
\<close>

theorem C10_save_result_frame:
  assumes "save_result query_id platform response_data t d = (d', True)"
  shows "(\<forall>k. k \<noteq> py_str query_id \<longrightarrow>
            map_of (stored d' RESULTS_FILE) k = map_of (stored d RESULTS_FILE) k)
       \<and> (\<forall>f. f \<noteq> platform \<longrightarrow>
            (dict_has (stored d RESULTS_FILE) (py_str query_id) \<or> f \<noteq> ''query_id'') \<longrightarrow>
            field_of (stored d' RESULTS_FILE) (py_str query_id) f =
            field_of (stored d RESULTS_FILE) (py_str query_id) f)
       \<and> field_of (stored d' RESULTS_FILE) (py_str query_id) platform =
            JObj (stamped response_data t)"
proof -
  from save_result_stored [OF assms] obtain e where
    e: "map_of (if dict_has (stored d RESULTS_FILE) (py_str query_id) then stored d RESULTS_FILE
                     else dict_set (stored d RESULTS_FILE) (py_str query_id) (new_result_entry query_id))
                 (py_str query_id) = Some (JObj e)"
    and st: "stored d' RESULTS_FILE =
              dict_set (if dict_has (stored d RESULTS_FILE) (py_str query_id) then stored d RESULTS_FILE
                     else dict_set (stored d RESULTS_FILE) (py_str query_id) (new_result_entry query_id))
                (py_str query_id) (JObj (dict_set e platform (JObj (stamped response_data t))))"
    by blast
  show ?thesis
  proof (cases "dict_has (stored d RESULTS_FILE) (py_str query_id)")
    case True
    then show ?thesis
      using e st
      by (auto simp: field_of_def map_of_dict_set dict_get_def)
  next
    case False
    then have "e = [(''query_id'', query_id), (''chatgpt'', JNull),
           (''google'', JNull), (''scores'', JNull)]"
      using e by (simp add: map_of_dict_set new_result_entry_def)
    then show ?thesis
      using False st
      by (auto simp: field_of_def map_of_dict_set dict_get_def dict_has_def)
  qed
qed

theorem C10_save_result_frame_witness:
  "snd (save_result (JInt 0) ''google'' answer_b t2 two_results_disk)
   \<and> map_of (stored (fst (save_result (JInt 0) ''google'' answer_b t2 two_results_disk)) RESULTS_FILE) ''1'' =
       map_of (stored two_results_disk RESULTS_FILE) ''1''
   \<and> field_of (stored (fst (save_result (JInt 0) ''google'' answer_b t2 two_results_disk)) RESULTS_FILE)
         ''0'' ''chatgpt'' = JObj (stamped answer_a t1)
   \<and> field_of (stored (fst (save_result (JInt 0) ''google'' answer_b t2 two_results_disk)) RESULTS_FILE)
         ''0'' ''scores'' = field_of (stored two_results_disk RESULTS_FILE) ''0'' ''scores''
   \<and> field_of (stored (fst (save_result (JInt 0) ''google'' answer_b t2 two_results_disk)) RESULTS_FILE)
         ''0'' ''google'' = JObj (stamped answer_b t2)"
proof -
  have ok: "snd (save_result (JInt 0) ''google'' answer_b t2 two_results_disk)"
    by (simp add: dm_eval)
  then have h: "save_result (JInt 0) ''google'' answer_b t2 two_results_disk =
      (fst (save_result (JInt 0) ''google'' answer_b t2 two_results_disk), True)"
    by (simp add: prod_eq_iff)
  have key: "py_str (JInt 0) = ''0''"
    by (simp add: py_str_def str_int_def str_nat.simps)
  have old: "field_of (stored two_results_disk RESULTS_FILE) ''0'' ''chatgpt'' = JObj (stamped answer_a t1)"
    by (simp add: stamped_def dm_eval)
  have has: "dict_has (stored two_results_disk RESULTS_FILE) ''0''"
    by (simp add: dm_eval)
  show ?thesis
    using C10_save_result_frame [OF h] ok old has by (simp add: key)
qed

text \<open>
  For a body that is an object whose \<open>scores\<close> are an object, the endpoint does
  reject what is incomplete: a missing or null \<open>query_id\<close>, missing or empty
  \<open>scores\<close>, or scores lacking a required field are answered with status 400 and a
  message naming what is missing, and nothing on disk changes.
\<close>

lemma first_missing_object:
  "first_missing (JObj scores) fs = Inr (find (\<lambda>field. \<not> dict_has scores field) fs)"
  by (induction fs) (simp_all add: py_in_def)

lemma object_scores_rejected:
  assumes "dict_get body ''query_id'' = JNull
           \<or> dict_get body ''scores'' = JNull
           \<or> (\<exists>scores f. dict_get body ''scores'' = JObj scores \<and> f \<in> set required_fields
                  \<and> \<not> dict_has scores f)"
  shows "\<exists>msg. api_save_scores (JsonBody (JObj body)) t d = (d, error_response 400 msg)
           \<and> (msg = ''Missing required fields''
                \<or> (\<exists>f \<in> set required_fields.
                      msg = ''Missing score field: '' @ f \<and>
                      (\<exists>scores. dict_get body ''scores'' = JObj scores \<and> \<not> dict_has scores f)))"
proof (cases "dict_get body ''query_id'' = JNull \<or> \<not> truthy (dict_get body ''scores'')")
  case True
  then show ?thesis
    by (auto simp: api_save_scores_def Let_def)
next
  case False
  then obtain scores f where s: "dict_get body ''scores'' = JObj scores"
      "f \<in> set required_fields" "\<not> dict_has scores f"
    using assms by auto
  then have "find (\<lambda>field. \<not> dict_has scores field) required_fields \<noteq> None"
    by (auto simp: find_None_iff)
  then obtain g where g: "find (\<lambda>field. \<not> dict_has scores field) required_fields = Some g"
    by auto
  then have "g \<in> set required_fields" "\<not> dict_has scores g"
    by (auto simp: find_Some_iff)
  then show ?thesis
    using False s(1) g by (auto simp: api_save_scores_def Let_def first_missing_object)
qed

text \<open>
  C8: the code differs from the claim. The validation tests \<open>field not in scores\<close>
  and never that \<open>scores\<close> is an object. A request whose \<open>scores\<close> are the list
  of the eight required names has no score field at all, yet every membership test
  succeeds; \<open>data_manager.save_scores\<close> then fails on \<open>scores['timestamp'] = ...\<close>
  and returns \<open>False\<close>, and the endpoint answers with status 200 and the message
  "Scores saved", without an error. Nothing is written. (For \<open>scores = 5\<close> the
  membership test raises and the answer is status 500 with the text of the exception.)
\<close>

theorem C8_list_of_names_not_rejected:
  "api_save_scores names_as_list t2 two_results_disk =
     (two_results_disk, 200, [(''success'', JBool False), (''message'', JStr ''Scores saved'')])
   \<and> dict_has (stored two_results_disk RESULTS_FILE) ''0''
   \<and> snd (api_save_scores (JsonBody (JObj [(''query_id'', JInt 0), (''scores'', JInt 5)]))
            t2 two_results_disk) =
       (500, [(''success'', JBool False),
              (''error'', JStr (''argument of type '' @ [CHR 0x27] @ ''int'' @ [CHR 0x27]
                                @ '' is not iterable''))])"
  by (simp add: api_eval dm_eval)

section \<open>Properties of the stratified sample\<close>

subsection \<open>Drawing a sample\<close>

lemma mset_remove_nth:
  "i < length xs \<Longrightarrow> add_mset (xs ! i) (mset (take i xs @ drop (Suc i) xs)) = mset xs"
proof -
  assume "i < length xs"
  then have "xs = take i xs @ xs ! i # drop (Suc i) xs"
    by (rule id_take_nth_drop)
  then have "mset xs = mset (take i xs @ xs ! i # drop (Suc i) xs)"
    by simp
  then show ?thesis by simp
qed

lemma random_sample_mset: "mset (fst (random_sample tape xs n)) \<subseteq># mset xs"
proof (induction tape xs n rule: random_sample.induct)
  case (3 tape x xs n)
  define r where "r = (case tape of [] \<Rightarrow> 0 | r # rs \<Rightarrow> r)"
  define tape1 where "tape1 = (case tape of [] \<Rightarrow> [] | r # rs \<Rightarrow> rs)"
  define i where "i = r mod length (x # xs)"
  have i: "i < length (x # xs)" by (simp add: i_def)
  have IH: "mset (fst (random_sample tape1 (take i (x # xs) @ drop (Suc i) (x # xs)) n))
      \<subseteq># mset (take i (x # xs) @ drop (Suc i) (x # xs))"
    using "3.IH" [of r tape1 i] by (simp add: r_def tape1_def i_def)
  have "mset (fst (random_sample tape (x # xs) (Suc n))) =
      add_mset ((x # xs) ! i) (mset (fst (random_sample tape1 (take i (x # xs) @ drop (Suc i) (x # xs)) n)))"
    by (simp add: r_def tape1_def i_def Let_def split_beta del: take_Suc_Cons drop_Suc_Cons nth_Cons_Suc)
  also have "\<dots> \<subseteq># add_mset ((x # xs) ! i) (mset (take i (x # xs) @ drop (Suc i) (x # xs)))"
    using IH by simp
  also have "\<dots> = mset (x # xs)"
    using mset_remove_nth [OF i] .
  finally show ?case .
qed simp_all

lemma random_sample_length:
  "n \<le> length xs \<Longrightarrow> length (fst (random_sample tape xs n)) = n"
proof (induction tape xs n rule: random_sample.induct)
  case (3 tape x xs n)
  define r where "r = (case tape of [] \<Rightarrow> 0 | r # rs \<Rightarrow> r)"
  define tape1 where "tape1 = (case tape of [] \<Rightarrow> [] | r # rs \<Rightarrow> rs)"
  define i where "i = r mod length (x # xs)"
  have i: "i < length (x # xs)" by (simp add: i_def)
  have len: "length (take i (x # xs) @ drop (Suc i) (x # xs)) = length xs"
    using i by (simp del: take_Suc_Cons drop_Suc_Cons)
  have IH: "length (fst (random_sample tape1 (take i (x # xs) @ drop (Suc i) (x # xs)) n)) = n"
    using "3.IH" [of r tape1 i] "3.prems" len by (simp add: r_def tape1_def i_def)
  show ?case
    using IH
    by (simp add: r_def tape1_def i_def Let_def split_beta del: take_Suc_Cons drop_Suc_Cons nth_Cons_Suc)
qed simp_all

lemma random_sample_set: "set (fst (random_sample tape xs n)) \<subseteq> set xs"
  using random_sample_mset [of tape xs n] by (metis set_mset_mono set_mset_mset)

lemma mset_subseteq_distinct:
  assumes "mset xs \<subseteq># mset ys" and "distinct ys"
  shows "distinct xs"
  unfolding distinct_count_atmost_1
proof
  fix a
  have "count (mset xs) a \<le> count (mset ys) a"
    using assms(1) by (rule mset_subset_eq_count)
  also have "\<dots> \<le> 1"
    using assms(2) by (simp add: distinct_count_atmost_1)
  finally have le: "count (mset xs) a \<le> 1" .
  show "count (mset xs) a = (if a \<in> set xs then 1 else 0)"
  proof (cases "a \<in> set xs")
    case True
    then have pos: "0 < count (mset xs) a" by simp
    have "count (mset xs) a = 1"
      using le pos by linarith
    then show ?thesis using True by simp
  next
    case False
    then show ?thesis by simp
  qed
qed

lemma random_sample_distinct:
  "distinct xs \<Longrightarrow> distinct (fst (random_sample tape xs n))"
  using random_sample_mset mset_subseteq_distinct by blast

lemma random_sample_all:
  assumes "n = length xs"
  shows "mset (fst (random_sample tape xs n)) = mset xs"
proof (rule ccontr)
  assume "mset (fst (random_sample tape xs n)) \<noteq> mset xs"
  then have "mset (fst (random_sample tape xs n)) \<subset># mset xs"
    using random_sample_mset [of tape xs n] by (simp add: subset_mset.less_le)
  then have "size (mset (fst (random_sample tape xs n))) < size (mset xs)"
    by (rule mset_subset_size)
  then show False
    using random_sample_length [of n xs tape] assms by simp
qed

subsection \<open>Grouping\<close>

lemma fst_dict_set:
  "map fst (dict_set d k v) = (if k \<in> fst ` set d then map fst d else map fst d @ [k])"
  by (induction d) force+

lemma map_of_add_group:
  "map_of (add_group by k q) =
     (map_of by)(k \<mapsto> (case map_of by k of None \<Rightarrow> [] | Some g \<Rightarrow> g) @ [q])"
  by (auto simp: add_group_def dict_has_def map_of_dict_set Let_def)

lemma fst_add_group:
  "map fst (add_group by k q) = (if k \<in> fst ` set by then map fst by else map fst by @ [k])"
proof -
  have "k \<in> set (map fst (dict_set by k []))"
    by (simp only: fst_dict_set split: if_splits) simp
  then have "k \<in> fst ` set (dict_set by k [])"
    by simp
  then show ?thesis
    by (auto simp: add_group_def dict_has_def fst_dict_set Let_def map_of_eq_None_iff)
qed

lemma keys_add_group: "fst ` set (add_group by k q) = insert k (fst ` set by)"
proof -
  have "set (map fst (add_group by k q)) = insert k (set (map fst by))"
    by (simp only: fst_add_group) (auto simp: image_iff)
  then show ?thesis by simp
qed

lemma fold_add_group_keys:
  "fst ` set (fold (\<lambda>q by. add_group by (key q) q) qs by0) = key ` set qs \<union> fst ` set by0"
  by (induction qs arbitrary: by0) (simp_all add: keys_add_group)

lemma fold_add_group_map_of:
  "map_of (fold (\<lambda>q by. add_group by (key q) q) qs by0) k =
     (if k \<in> key ` set qs \<or> k \<in> fst ` set by0
      then Some ((case map_of by0 k of None \<Rightarrow> [] | Some g \<Rightarrow> g) @ filter (\<lambda>q. key q = k) qs)
      else None)"
proof (induction qs arbitrary: by0)
  case Nil
  then show ?case
    by (auto simp: map_of_eq_None_iff split: option.splits)
next
  case (Cons q qs)
  show ?case
  proof (cases "key q = k")
    case True
    then show ?thesis
      by (simp add: Cons.IH map_of_add_group keys_add_group)
  next
    case False
    then show ?thesis
      by (simp add: Cons.IH map_of_add_group keys_add_group)
  qed
qed

lemma fold_add_group_distinct:
  "distinct (map fst by0) \<Longrightarrow> distinct (map fst (fold (\<lambda>q by. add_group by (key q) q) qs by0))"
  by (induction qs arbitrary: by0) (simp_all add: fst_add_group)

lemma group_get_group_by: "group_get (group_by key qs) k = filter (\<lambda>q. key q = k) qs"
proof -
  have "filter (\<lambda>q. key q = k) qs = []" if "k \<notin> key ` set qs"
    using that by (auto simp: filter_empty_conv)
  then show ?thesis
    by (auto simp: group_get_def group_by_def fold_add_group_map_of)
qed

lemma keys_group_by:
  "fst ` set (group_by key qs) = key ` set qs" "distinct (map fst (group_by key qs))"
  by (simp_all add: group_by_def fold_add_group_keys fold_add_group_distinct)

lemma length_group_by: "length (group_by key qs) = card (key ` set qs)"
proof -
  have "card (key ` set qs) = card (set (map fst (group_by key qs)))"
    by (simp add: keys_group_by)
  also have "\<dots> = length (map fst (group_by key qs))"
    using keys_group_by(2) by (rule distinct_card)
  finally show ?thesis by simp
qed

subsection \<open>The selection state\<close>

lemma sel_inv_extend:
  assumes inv: "sel_inv queries selected ids"
    and pool: "distinct pool" "set pool \<subseteq> set queries" "\<forall>q \<in> set pool. id_of q \<notin> ids"
  shows "sel_inv queries (selected @ fst (random_sample tape pool n))
           (ids \<union> set (map id_of (fst (random_sample tape pool n))))"
proof -
  let ?s = "fst (random_sample tape pool n)"
  have sub: "set ?s \<subseteq> set pool" by (rule random_sample_set)
  have dis: "distinct ?s" using pool(1) by (rule random_sample_distinct)
  have "set selected \<inter> set ?s = {}"
  proof (rule ccontr)
    assume "set selected \<inter> set ?s \<noteq> {}"
    then obtain q where q: "q \<in> set selected" "q \<in> set ?s" by auto
    then have "id_of q \<in> ids" using inv by (simp add: sel_inv_def)
    moreover have "id_of q \<notin> ids" using q(2) sub pool(3) by auto
    ultimately show False by simp
  qed
  then show ?thesis
    using inv sub dis pool(2) by (auto simp: sel_inv_def)
qed

lemma distinct_queries: "distinct (map id_of queries) \<Longrightarrow> distinct queries"
  by (rule distinct_map [THEN iffD1, THEN conjunct1])

lemma category_loop_inv:
  assumes "distinct queries" and "sel_inv queries selected ids"
    and "category_loop (group_by category_of queries) spc cs (selected, ids, tape) = (selected', ids', tape')"
  shows "sel_inv queries selected' ids' \<and> length selected' \<le> length selected + spc * length cs"
  using assms(2,3)
proof (induction cs arbitrary: selected ids tape)
  case Nil
  then show ?case by simp
next
  case (Cons c cs)
  let ?pool = "filter (\<lambda>q. id_of q \<notin> ids) (group_get (group_by category_of queries) c)"
  let ?n = "min spc (length ?pool)"
  let ?s = "fst (random_sample tape ?pool ?n)"
  have pool: "distinct ?pool" "set ?pool \<subseteq> set queries" "\<forall>q \<in> set ?pool. id_of q \<notin> ids"
    using assms(1) by (auto simp: group_get_group_by)
  have inv1: "sel_inv queries (selected @ ?s) (ids \<union> set (map id_of ?s))"
    using Cons.prems(1) pool by (rule sel_inv_extend)
  have len: "length ?s = ?n"
    by (rule random_sample_length) simp
  have step: "category_loop (group_by category_of queries) spc cs
      (selected @ ?s, ids \<union> set (map id_of ?s), snd (random_sample tape ?pool ?n)) = (selected', ids', tape')"
    using Cons.prems(2) by (simp add: Let_def split_beta)
  from Cons.IH [OF inv1 step]
  have "sel_inv queries selected' ids'" and "length selected' \<le> length (selected @ ?s) + spc * length cs"
    by simp_all
  then show ?case
    using len by simp
qed

lemma set_dict_set_subset: "set (dict_set d k v) \<subseteq> insert (k, v) (set d)"
  by (induction d) (auto split: if_splits)

lemma dedup_by_id_fold:
  assumes "distinct (map fst d)" and "\<forall>(k, v) \<in> set d. id_of v = k"
  shows "distinct (map fst (fold (\<lambda>q d. dict_set d (id_of q) q) qs d))
       \<and> (\<forall>(k, v) \<in> set (fold (\<lambda>q d. dict_set d (id_of q) q) qs d). id_of v = k)
       \<and> snd ` set (fold (\<lambda>q d. dict_set d (id_of q) q) qs d) \<subseteq> set qs \<union> snd ` set d"
  using assms
proof (induction qs arbitrary: d)
  case Nil
  then show ?case by simp
next
  case (Cons q qs)
  have d1: "distinct (map fst (dict_set d (id_of q) q))"
    using Cons.prems(1) by (simp add: fst_dict_set)
  have d2: "\<forall>(k, v) \<in> set (dict_set d (id_of q) q). id_of v = k"
    using Cons.prems(2) set_dict_set_subset [of d "id_of q" q] by auto
  have d3: "snd ` set (dict_set d (id_of q) q) \<subseteq> insert q (snd ` set d)"
    using set_dict_set_subset [of d "id_of q" q] by auto
  let ?f = "fold (\<lambda>q d. dict_set d (id_of q) q) qs (dict_set d (id_of q) q)"
  from Cons.IH [OF d1 d2]
  have a: "distinct (map fst ?f)" and b: "\<forall>(k, v) \<in> set ?f. id_of v = k"
    and c: "snd ` set ?f \<subseteq> set qs \<union> snd ` set (dict_set d (id_of q) q)"
    by blast+
  have "snd ` set ?f \<subseteq> set (q # qs) \<union> snd ` set d"
    using c d3 by auto
  then show ?case
    using a b by simp
qed

lemma dedup_by_id_props:
  "distinct (dedup_by_id qs)" "set (dedup_by_id qs) \<subseteq> set qs"
proof -
  let ?d = "fold (\<lambda>q d. dict_set d (id_of q) q) qs []"
  have p: "distinct (map fst ?d)" "\<forall>(k, v) \<in> set ?d. id_of v = k" "snd ` set ?d \<subseteq> set qs"
    using dedup_by_id_fold [of "[]" qs] by simp_all
  have eq: "map (id_of \<circ> snd) ?d = map fst ?d"
    using p(2) by auto
  have "distinct (map (id_of \<circ> snd) ?d)"
    unfolding eq by (rule p(1))
  then have "distinct (map id_of (map snd ?d))"
    by (simp only: map_map)
  then have "distinct (map snd ?d)"
    by (rule distinct_queries)
  then show "distinct (dedup_by_id qs)"
    by (simp add: dedup_by_id_def)
  show "set (dedup_by_id qs) \<subseteq> set qs"
    using p(3) by (simp add: dedup_by_id_def)
qed

lemma priority_phase_inv:
  assumes "sel_inv queries selected ids"
    and "priority_phase (group_by quality_of queries) (group_by intent_of queries) remaining
           (selected, ids, tape) = (selected2, ids2, remaining2, tape2)"
  shows "sel_inv queries selected2 ids2
       \<and> int (length selected2) = int (length selected) + (remaining - remaining2)
       \<and> (0 < remaining \<longrightarrow> 0 \<le> remaining2)
       \<and> (remaining \<le> 0 \<longrightarrow> remaining2 = remaining)"
proof (cases "0 < remaining")
  case False
  then show ?thesis using assms by (simp add: priority_phase_def)
next
  case True
  let ?pg = "dedup_by_id
     (filter (\<lambda>q. id_of q \<notin> ids)
        (group_get (group_by quality_of queries) ''Poorly-formed''
         @ group_get (group_by quality_of queries) ''Ambiguous'')
      @ filter (\<lambda>q. id_of q \<notin> ids)
        (group_get (group_by intent_of queries) ''Low''
         @ group_get (group_by intent_of queries) ''Very Low''))"
  show ?thesis
  proof (cases "?pg = []")
    case True
    then show ?thesis
      using assms \<open>0 < remaining\<close> by (simp add: priority_phase_def Let_def)
  next
    case False
    let ?n = "min (nat remaining) (length ?pg)"
    let ?s = "fst (random_sample tape ?pg ?n)"
    have pool: "distinct ?pg" "set ?pg \<subseteq> set queries" "\<forall>q \<in> set ?pg. id_of q \<notin> ids"
      using dedup_by_id_props(2) [of "filter (\<lambda>q. id_of q \<notin> ids)
        (group_get (group_by quality_of queries) ''Poorly-formed''
         @ group_get (group_by quality_of queries) ''Ambiguous'')
      @ filter (\<lambda>q. id_of q \<notin> ids)
        (group_get (group_by intent_of queries) ''Low''
         @ group_get (group_by intent_of queries) ''Very Low'')"]
      by (auto simp: dedup_by_id_props(1) group_get_group_by)
    have inv1: "sel_inv queries (selected @ ?s) (ids \<union> set (map id_of ?s))"
      using assms(1) pool by (rule sel_inv_extend)
    have len: "length ?s = ?n"
      by (rule random_sample_length) simp
    have res: "selected2 = selected @ ?s" "ids2 = ids \<union> set (map id_of ?s)"
        "remaining2 = remaining - int ?n"
      using assms(2) False \<open>0 < remaining\<close>
      by (simp_all add: priority_phase_def Let_def split_beta)
    show ?thesis
      using inv1 len True by (simp add: res)
  qed
qed

lemma sel_invD:
  assumes "sel_inv queries selected ids"
  shows "distinct selected" "set selected \<subseteq> set queries" "ids = id_of ` set selected"
  using assms by (simp_all add: sel_inv_def)

lemma fill_phase_props:
  assumes dq: "distinct (map id_of queries)" and inv: "sel_inv queries selected ids"
  shows "distinct (fill_phase queries (selected, ids, remaining, tape))"
    and "set (fill_phase queries (selected, ids, remaining, tape)) \<subseteq> set queries"
    and "0 < remaining \<Longrightarrow>
           int (length (fill_phase queries (selected, ids, remaining, tape)))
             \<le> int (length selected) + remaining"
    and "remaining \<le> 0 \<Longrightarrow> fill_phase queries (selected, ids, remaining, tape) = selected"
    and "int (length queries) - int (length selected) \<le> remaining \<Longrightarrow>
           set (fill_phase queries (selected, ids, remaining, tape)) = set queries"
proof -
  let ?av = "filter (\<lambda>q. id_of q \<notin> ids) queries"
  let ?n = "min (nat remaining) (length ?av)"
  let ?s = "fst (random_sample tape ?av ?n)"
  let ?r = "fill_phase queries (selected, ids, remaining, tape)"
  have dqs: "distinct queries" and inj: "inj_on id_of (set queries)"
    using dq by (simp_all add: distinct_map)
  have pool: "distinct ?av" "set ?av \<subseteq> set queries" "\<forall>q \<in> set ?av. id_of q \<notin> ids"
    using dqs by auto
  have inv1: "sel_inv queries (selected @ ?s) (ids \<union> set (map id_of ?s))"
    using inv pool by (rule sel_inv_extend)
  have len: "length ?s = ?n"
    by (rule random_sample_length) simp
  have r: "?r = (if 0 < remaining \<and> ?av \<noteq> [] then selected @ ?s else selected)"
    by (simp add: fill_phase_def Let_def split_beta)
  show "distinct ?r"
    using sel_invD(1) [OF inv] sel_invD(1) [OF inv1] by (simp only: r split: if_splits) simp
  show "set ?r \<subseteq> set queries"
    using sel_invD(2) [OF inv] sel_invD(2) [OF inv1] by (simp only: r split: if_splits) simp
  show "int (length ?r) \<le> int (length selected) + remaining" if "0 < remaining"
    using that len by (auto simp: r min_def)
  show "?r = selected" if "remaining \<le> 0"
    using that by (simp add: r)
  show "set ?r = set queries" if big: "int (length queries) - int (length selected) \<le> remaining"
  proof -
    have av_set: "set ?av = set queries - set selected"
    proof -
      have "q \<in> set selected" if "q \<in> set queries" "id_of q \<in> ids" for q
      proof -
        from that(2) sel_invD(3) [OF inv] obtain q' where q': "q' \<in> set selected" "id_of q' = id_of q"
          by auto
        have "q' \<in> set queries" using q'(1) sel_invD(2) [OF inv] by auto
        then have "q' = q"
          using that(1) q'(2) inj by (auto dest: inj_onD)
        then show ?thesis using q'(1) by simp
      qed
      then show ?thesis using sel_invD(3) [OF inv] by auto
    qed
    have "length ?av = card (set queries - set selected)"
      using pool(1) av_set by (metis distinct_card)
    also have "\<dots> = card (set queries) - card (set selected)"
      using sel_invD(2) [OF inv] by (simp add: card_Diff_subset)
    also have "\<dots> = length queries - length selected"
      using dqs sel_invD(1) [OF inv] by (simp add: distinct_card)
    finally have av_len: "length ?av = length queries - length selected" .
    show ?thesis
    proof (cases "?av = []")
      case True
      then have "set queries - set selected = {}"
        using av_set by simp
      then have "set selected = set queries"
        using sel_invD(2) [OF inv] by auto
      then show ?thesis using True by (simp add: r)
    next
      case False
      then have pos: "0 < length ?av" by simp
      then have rem: "0 < remaining" and n: "?n = length ?av"
        using big av_len by auto
      have "mset ?s = mset ?av"
        using n by (intro random_sample_all) simp
      then have "set ?s = set ?av"
        by (rule mset_eq_setD)
      then have "set (selected @ ?s) = set queries"
        using av_set sel_invD(2) [OF inv] by auto
      then show ?thesis
        using rem False by (simp only: r) simp
    qed
  qed
qed

lemma id_of_distinct:
  assumes "\<forall>q \<in> set queries. qid q \<noteq> None" and "distinct (map qid queries)"
  shows "distinct (map id_of queries)"
proof -
  have "inj_on id_of (set queries)"
  proof (rule inj_onI)
    fix x y assume xy: "x \<in> set queries" "y \<in> set queries" "id_of x = id_of y"
    then have "qid x = qid y"
      using assms(1) by (auto simp: id_of_def split: option.splits)
    then show "x = y"
      using assms(2) xy(1,2) by (auto simp: distinct_map dest: inj_onD)
  qed
  moreover have "distinct queries"
    using assms(2) by (simp add: distinct_map)
  ultimately show ?thesis
    by (simp add: distinct_map)
qed

lemma filter_key_single:
  assumes "distinct zs" and "inj_on f (set zs)" and "k \<in> set zs"
  shows "filter (\<lambda>x. f k = f x) zs = [k]"
proof -
  have "filter (\<lambda>x. f k = f x) zs = filter (\<lambda>x. k = x) zs"
    using assms(2,3) by (intro filter_cong) (auto dest: inj_onD)
  also have "\<dots> = [k]"
    using assms(1,3) by (induction zs) (auto simp: filter_empty_conv)
  finally show ?thesis .
qed

lemma sort_key_perm_cong:
  assumes "mset xs = mset ys" and "distinct (map f ys)"
  shows "sort_key f xs = sort_key f ys"
proof (rule properties_for_sort_key)
  show "mset (sort_key f ys) = mset xs"
    by (simp add: assms(1))
  show "sorted (map f (sort_key f ys))"
    by simp
  have dy: "distinct ys" and iy: "inj_on f (set ys)"
    using assms(2) by (simp_all add: distinct_map)
  have sx: "set xs = set ys"
    using assms(1) by (rule mset_eq_setD)
  have dx: "distinct xs"
    using mset_eq_imp_distinct_iff [OF assms(1)] dy by blast
  show "filter (\<lambda>x. f k = f x) (sort_key f ys) = filter (\<lambda>x. f k = f x) xs"
    if "k \<in> set (sort_key f ys)" for k
  proof -
    have k: "k \<in> set ys" using that by simp
    have "filter (\<lambda>x. f k = f x) (sort_key f ys) = [k]"
      using dy iy k by (intro filter_key_single) simp_all
    moreover have "filter (\<lambda>x. f k = f x) xs = [k]"
      using dx iy k sx by (intro filter_key_single) simp_all
    ultimately show ?thesis by simp
  qed
qed

lemma select_unfold:
  assumes ne: "queries \<noteq> []" and ids: "\<forall>q \<in> set queries. qid q \<noteq> None"
  shows "select_stratified_sample tape queries sample_size =
     Inr (sort_key id_of
       (fill_phase queries
          (priority_phase (group_by quality_of queries) (group_by intent_of queries)
             (sample_size - int (length (fst (category_loop (group_by category_of queries)
                 (nat (max 1 (sample_size div int (card (category_of ` set queries)))))
                 (map fst (group_by category_of queries)) ([], {}, tape)))))
             (category_loop (group_by category_of queries)
                 (nat (max 1 (sample_size div int (card (category_of ` set queries)))))
                 (map fst (group_by category_of queries)) ([], {}, tape)))))"
proof -
  have "card (category_of ` set queries) \<noteq> 0"
    using ne by simp
  then have cats: "map fst (group_by category_of queries) \<noteq> []"
    using length_group_by [of category_of queries] by auto
  have noex: "\<not> list_ex (\<lambda>q. qid q = None) queries"
    using ids by (simp add: list_ex_iff)
  have len: "length (map fst (group_by category_of queries)) = card (category_of ` set queries)"
    by (simp add: length_group_by)
  show ?thesis
    unfolding select_stratified_sample_def Let_def
    by (simp only: cats noex if_False len)
qed








text \<open>
  C9, amended: for a non-empty list of queries that all have an id, with pairwise
  different ids, and a target size of at least the number of queries,
  \<open>select_stratified_sample\<close> returns all the queries, sorted by ascending id.
\<close>

theorem C9_sample_all_sorted:
  assumes ne: "queries \<noteq> []" and ids: "\<forall>q \<in> set queries. qid q \<noteq> None"
    and dist: "distinct (map qid queries)"
    and big: "int (length queries) \<le> sample_size"
  shows "select_stratified_sample tape queries sample_size = Inr (sort_key id_of queries)
       \<and> mset (sort_key id_of queries) = mset queries
       \<and> sorted (map id_of (sort_key id_of queries))"
proof -
  let ?ncat = "card (category_of ` set queries)"
  let ?spc = "nat (max 1 (sample_size div int ?ncat))"
  let ?cats = "map fst (group_by category_of queries)"
  obtain selected sids tape1 where cl:
    "category_loop (group_by category_of queries) ?spc ?cats ([], {}, tape) = (selected, sids, tape1)"
    by (metis prod_cases3)
  let ?rem = "sample_size - int (length selected)"
  obtain selected2 sids2 rem2 tape2 where pp:
    "priority_phase (group_by quality_of queries) (group_by intent_of queries) ?rem
       (selected, sids, tape1) = (selected2, sids2, rem2, tape2)"
    by (metis prod_cases4)
  let ?sel3 = "fill_phase queries (selected2, sids2, rem2, tape2)"
  have dio: "distinct (map id_of queries)"
    using ids dist by (rule id_of_distinct)
  then have dq: "distinct queries"
    by (simp add: distinct_map)
  have inv0: "sel_inv queries [] {}"
    by (simp add: sel_inv_def)
  from category_loop_inv [OF dq inv0 cl]
  have inv1: "sel_inv queries selected sids"
    by simp
  from priority_phase_inv [OF inv1 pp]
  have inv2: "sel_inv queries selected2 sids2"
    and len2: "int (length selected2) = int (length selected) + (?rem - rem2)"
    by simp_all
  note fp = fill_phase_props [OF dio inv2, of rem2 tape2]
  have res: "select_stratified_sample tape queries sample_size = Inr (sort_key id_of ?sel3)"
    by (simp add: select_unfold [OF ne ids] cl pp)
  have "int (length queries) - int (length selected2) \<le> rem2"
    using len2 big by simp
  then have "set ?sel3 = set queries"
    by (rule fp(5))
  then have "mset ?sel3 = mset queries"
    using fp(1) dq by (simp add: set_eq_iff_mset_eq_distinct)
  then have "sort_key id_of ?sel3 = sort_key id_of queries"
    using dio by (rule sort_key_perm_cong)
  then show ?thesis
    using res by simp
qed

lemmas sampling_eval =
  select_stratified_sample_def three_categories_def six_queries_def mk_query_def
  group_by_def add_group_def dict_has_def group_get_def priority_phase_def fill_phase_def
  category_of_def quality_of_def intent_of_def id_of_def dedup_by_id_def Let_def



text \<open>
  C9, as stated, fails for the empty list: the division by the number of categories
  raises \<open>ZeroDivisionError\<close>.
\<close>

theorem C9_counterexample:
  "select_stratified_sample [] [] 20 = Inl ZeroDivisionError"
  by (simp add: sampling_eval)

theorem C9_sample_all_sorted_witness:
  "three_categories \<noteq> []
   \<and> list_all (\<lambda>q. qid q \<noteq> None) three_categories
   \<and> distinct (map qid three_categories)
   \<and> int (length three_categories) \<le> 20
   \<and> select_stratified_sample [4, 0, 2] three_categories 20 =
       Inr [mk_query 0 ''How-to'' ''Ambiguous'' ''Low'',
            mk_query 1 ''Opinion'' ''Poorly-formed'' ''Medium'',
            mk_query 2 ''Factual'' ''Well-formed'' ''High'']"
proof -
  have a: "three_categories \<noteq> []"
    by (simp add: three_categories_def)
  have b: "\<forall>q \<in> set three_categories. qid q \<noteq> None"
    by (simp add: three_categories_def mk_query_def)
  have c: "distinct (map qid three_categories)"
    by (simp add: three_categories_def mk_query_def)
  have d: "int (length three_categories) \<le> 20"
    by (simp add: three_categories_def)
  have s: "sort_key id_of three_categories =
      [mk_query 0 ''How-to'' ''Ambiguous'' ''Low'',
       mk_query 1 ''Opinion'' ''Poorly-formed'' ''Medium'',
       mk_query 2 ''Factual'' ''Well-formed'' ''High'']"
    by (simp add: three_categories_def mk_query_def id_of_def)
  show ?thesis
    using a b c d C9_sample_all_sorted [OF a b c d, of "[4, 0, 2]"]
    by (simp add: list_all_iff s)
qed


section \<open>Properties of the batch runner\<close>











lemmas batch_eval =
  batch_query_def query_with_retry_def query_chatgpt_def time_sleep_def emit_def
  retry_attempts_def retry_delay_def rate_limit_delay_def
  no_config_def negative_delay_def fresh_client_def paris_def paris_result_def
  fails_twice_def always_fails_def first_fails_def q0_def q1_def t1_def upt_rec Let_def


text \<open>
  C3: the code differs from the claim. With an endpoint that fails on its first two
  calls and succeeds on the third, and the default of three attempts, the item is
  recorded as a success after three calls, but no backoff sleep occurs in between:
  \<open>query_chatgpt\<close> catches every exception and returns \<open>None\<close>, so the
  \<open>except\<close> clause of \<open>query_with_retry\<close> that holds the backoff is never
  entered. With an endpoint that always fails, each item is recorded as a failure
  after exactly three calls and the batch goes on to the next item, as claimed.
\<close>

theorem C3_no_backoff_between_attempts:
  "batch_query fails_twice no_config t1 False [q0] fresh_client =
     Inr ([\<lparr>r_query_id = Some 0, r_success = True, r_data = Some paris_result, r_error = None\<rparr>],
          \<lparr>calls = 3,
           trace = [Invoke ''capital of France'', Invoke ''capital of France'',
                    Invoke ''capital of France'', Outcome 0 True]\<rparr>)
   \<and> batch_query always_fails no_config t1 False [q0, q1] fresh_client =
     Inr ([\<lparr>r_query_id = Some 0, r_success = False, r_data = None,
            r_error = Some ''Failed after retries''\<rparr>,
           \<lparr>r_query_id = Some 1, r_success = False, r_data = None,
            r_error = Some ''Failed after retries''\<rparr>],
          \<lparr>calls = 6,
           trace = [Invoke ''capital of France'', Invoke ''capital of France'',
                    Invoke ''capital of France'', Outcome 0 False, RateLimitSleep 1,
                    Invoke ''capital of Peru'', Invoke ''capital of Peru'',
                    Invoke ''capital of Peru'', Outcome 1 False]\<rparr>)"
  by (simp add: batch_eval)


section \<open>Properties of the paired test\<close>

text \<open>
  C5: the code differs from the claim. On a DataFrame whose two relevance columns
  agree on both paired rows, whatever \<open>ttest_rel\<close> returns, the differences are
  all zero, their standard deviation is zero, Cohen's d is \<open>0/0\<close>, which is NaN,
  and since no comparison with NaN holds, \<open>interpret_cohens_d\<close> falls through to
  its last branch: the effect is reported as "large".
\<close>

theorem C5_identical_vectors_large:
  "map_sum id tt_n (paired_t_test ttest_rel equal_scores ''relevance'') = Inr 2
   \<and> map_sum id tt_cohens_d (paired_t_test ttest_rel equal_scores ''relevance'') = Inr NaN
   \<and> map_sum id tt_interpretation (paired_t_test ttest_rel equal_scores ''relevance'') = Inr ''large''"
  by (simp add: paired_t_test_def equal_scores_def mean_def std_def interpret_cohens_d_def
      Let_def split_beta)

theorem C5_identical_vectors_large_witness:
  "map_sum id tt_cohens_d (paired_t_test (\<lambda>a b. (NaN, NaN)) equal_scores ''relevance'') = Inr NaN
   \<and> map_sum id tt_interpretation (paired_t_test (\<lambda>a b. (NaN, NaN)) equal_scores ''relevance'') =
       Inr ''large''
   \<and> map_sum id tt_significant (paired_t_test (\<lambda>a b. (NaN, NaN)) equal_scores ''relevance'') =
       Inr False"
proof -
  have "map_sum id tt_significant (paired_t_test (\<lambda>a b. (NaN, NaN)) equal_scores ''relevance'') =
       Inr False"
    by (simp add: paired_t_test_def equal_scores_def Let_def split_beta)
  then show ?thesis
    using C5_identical_vectors_large [of "\<lambda>a b. (NaN, NaN)"] by simp
qed


end
